theory Spec2Isabelle
  imports Main
begin

section \<open>Paths and the filesystem\<close>

text \<open>
  A \<open>pathlib.Path\<close> is modelled by its parts: \<open>Path("proto")\<close> is \<open>[''proto'']\<close>,
  and the empty list is \<open>Path(".")\<close>, the working directory. A filesystem is an association
  list from paths to nodes, in the order in which the operating system enumerates entries.
\<close>

type_synonym path = "string list"

datatype node = Dir | File

type_synonym filesystem = "(path \<times> node) list"

fun join_parts :: "string list \<Rightarrow> string" where
  "join_parts [] = []"
| "join_parts [x] = x"
| "join_parts (x # y # ys) = x @ ''/'' @ join_parts (y # ys)"

text \<open>\<open>str(path)\<close>: the parts joined by a slash; the path without parts prints as a dot.\<close>

definition path_str :: "path \<Rightarrow> string" where
  "path_str p = (if p = [] then ''.'' else join_parts p)"

text \<open>\<open>path.parent\<close>; the parent of the working directory is itself.\<close>

definition parent :: "path \<Rightarrow> path" where
  "parent p = butlast p"

text \<open>The working directory always exists and is a directory.\<close>

definition lookup :: "filesystem \<Rightarrow> path \<Rightarrow> node option" where
  "lookup s p = (if p = [] then Some Dir else map_of s p)"

definition is_dir :: "filesystem \<Rightarrow> path \<Rightarrow> bool" where
  "is_dir s p = (lookup s p = Some Dir)"

datatype py_error =
    FileExistsError
  | FileNotFoundError
  | NotADirectoryError
  | CalledProcessError int "string list"

text \<open>
  \<open>os.mkdir(p)\<close>: fails when \<open>p\<close> exists, when its parent is missing, and when its parent
  is not a directory; otherwise it adds the directory \<open>p\<close>. Permissions and full disks are
  not modelled.
\<close>

definition os_mkdir :: "path \<Rightarrow> filesystem \<Rightarrow> py_error + filesystem" where
  "os_mkdir p s =
     (if lookup s p \<noteq> None then Inl FileExistsError
      else (case lookup s (parent p) of
              None \<Rightarrow> Inl FileNotFoundError
            | Some File \<Rightarrow> Inl NotADirectoryError
            | Some Dir \<Rightarrow> Inr (s @ [(p, Dir)])))"

text \<open>
  \<open>Path.mkdir(parents, exist_ok)\<close> of the standard library:
  \<^verbatim>\<open>
  try:
      os.mkdir(self, mode)
  except FileNotFoundError:
      if not parents or self.parent == self:
          raise
      self.parent.mkdir(parents=True, exist_ok=True)
      self.mkdir(mode, parents=False, exist_ok=exist_ok)
  except OSError:
      if not exist_ok or not self.is_dir():
          raise
  \<close>
\<close>

function pathlib_mkdir :: "path \<Rightarrow> bool \<Rightarrow> bool \<Rightarrow> filesystem \<Rightarrow> py_error + filesystem" where
  "pathlib_mkdir p parents exist_ok s =
     (case os_mkdir p s of
        Inr s' \<Rightarrow> Inr s'
      | Inl e \<Rightarrow>
          if e = FileNotFoundError then
            (if \<not> parents \<or> parent p = p then Inl e
             else (case pathlib_mkdir (parent p) True True s of
                     Inl e' \<Rightarrow> Inl e'
                   | Inr s1 \<Rightarrow> pathlib_mkdir p False exist_ok s1))
          else if \<not> exist_ok \<or> \<not> is_dir s p then Inl e
          else Inr s)"
  by pat_completeness auto
termination
proof (relation "measures [\<lambda>(p, parents, exist_ok, s). length p,
                           \<lambda>(p, parents, exist_ok, s). if parents then 1 else 0]")
  show "wf (measures [\<lambda>(p, parents, exist_ok, s). length p,
                      \<lambda>(p, parents, exist_ok, s). if parents then 1 else (0::nat)])"
    by simp
next
  fix p :: path and parents exist_ok :: bool and s :: filesystem and e :: py_error
  assume "\<not> (\<not> parents \<or> parent p = p)"
  then have "p \<noteq> []"
    by (auto simp: parent_def)
  then show "((parent p, True, True, s), (p, parents, exist_ok, s))
             \<in> measures [\<lambda>(p, parents, exist_ok, s). length p,
                          \<lambda>(p, parents, exist_ok, s). if parents then 1 else (0::nat)]"
    by (simp add: parent_def)
next
  fix p :: path and parents exist_ok :: bool and s s1 :: filesystem and e :: py_error
  assume "\<not> (\<not> parents \<or> parent p = p)"
  then show "((p, False, exist_ok, s1), (p, parents, exist_ok, s))
             \<in> measures [\<lambda>(p, parents, exist_ok, s). length p,
                          \<lambda>(p, parents, exist_ok, s). if parents then 1 else (0::nat)]"
    by simp
qed

declare pathlib_mkdir.simps [simp del]

text \<open>
  \<open>d.glob("*" + suffix)\<close>: the entries directly inside \<open>d\<close> whose name ends with the suffix,
  in the order of the filesystem; nothing when \<open>d\<close> is not a directory.
\<close>

definition ends_with :: "string \<Rightarrow> string \<Rightarrow> bool" where
  "ends_with suffix name =
     (length suffix \<le> length name \<and> drop (length name - length suffix) name = suffix)"

definition scandir :: "filesystem \<Rightarrow> path \<Rightarrow> string list" where
  "scandir s d = remdups (map (\<lambda>e. last (fst e)) (filter (\<lambda>e. fst e \<noteq> [] \<and> parent (fst e) = d) s))"

definition glob :: "path \<Rightarrow> string \<Rightarrow> filesystem \<Rightarrow> path list" where
  "glob d suffix s =
     (if is_dir s d then map (\<lambda>n. d @ [n]) (filter (ends_with suffix) (scandir s d)) else [])"

section \<open>External programs, the trace and the world\<close>

text \<open>
  The external programs are a parameter of the model: given the argument vector and the
  filesystem at launch, a program runs to completion and yields its exit status, the text it
  printed and the filesystem it leaves behind. Whether a program succeeds shows in its exit
  status only. A program that the operating system cannot start at all (\<open>subprocess.run\<close>
  then raises \<open>OSError\<close>, whatever \<open>check\<close> is) is not covered: the model is about
  runs in which \<open>python\<close>, \<open>protoc\<close> and \<open>protol\<close> are installed.
\<close>

type_synonym programs = "string list \<Rightarrow> filesystem \<Rightarrow> int \<times> string \<times> filesystem"

text \<open>
  What the script does is recorded in a trace: a logged message, an enumeration of the proto
  directory (with the filesystem it was taken from and the paths it gave), and a completed
  subprocess (with its argument vector, the filesystem at launch and its exit status).
\<close>

datatype event =
    Log string
  | Listed filesystem "path list"
  | Spawn "string list" filesystem int

record world =
  fs :: filesystem
  trace :: "event list"

definition logger_info :: "string \<Rightarrow> world \<Rightarrow> world" where
  "logger_info msg w = w\<lparr>trace := trace w @ [Log msg]\<rparr>"

definition path_glob :: "path \<Rightarrow> string \<Rightarrow> world \<Rightarrow> path list \<times> world" where
  "path_glob d suffix w =
     (glob d suffix (fs w), w\<lparr>trace := trace w @ [Listed (fs w) (glob d suffix (fs w))]\<rparr>)"

text \<open>
  \<open>subprocess.run(args, check=...)\<close> without captured output: the result carries the
  arguments and the return code only. The keyword \<open>check\<close> is \<open>None\<close> when the call leaves
  it out (its default is \<open>False\<close>); with \<open>check=True\<close> a non-zero exit status raises
  \<open>CalledProcessError\<close>.
\<close>

record completed_process =
  args :: "string list"
  returncode :: int

definition subprocess_run ::
  "programs \<Rightarrow> string list \<Rightarrow> bool option \<Rightarrow> world \<Rightarrow> py_error + completed_process \<times> world" where
  "subprocess_run ps argv check w =
     (case ps argv (fs w) of
        (code, out, s') \<Rightarrow>
          if (case check of None \<Rightarrow> False | Some c \<Rightarrow> c) \<and> code \<noteq> 0
          then Inl (CalledProcessError code argv)
          else Inr (\<lparr>args = argv, returncode = code\<rparr>,
                    \<lparr>fs = s', trace = trace w @ [Spawn argv (fs w) code]\<rparr>))"

section \<open>compile\_python.py\<close>

definition PROTO_DIR :: path where
  "PROTO_DIR = [''proto'']"

definition COMPILED_PY_DIR :: path where
  "COMPILED_PY_DIR = [''backend'', ''packages'', ''proto'', ''proto'', ''compiled'']"

text \<open>The keyword \<open>check=False\<close> of both \<open>subprocess.run\<close> calls of the script.\<close>

definition python_check :: "bool option" where
  "python_check = Some False"

definition python_protoc_args :: "path \<Rightarrow> string list" where
  "python_protoc_args proto_file =
     [''python'',
      ''-m'',
      ''grpc_tools.protoc'',
      ''--proto_path='' @ path_str PROTO_DIR,
      ''--python_out='' @ path_str COMPILED_PY_DIR,
      ''--grpc_python_out='' @ path_str COMPILED_PY_DIR,
      ''--pyi_out='' @ path_str COMPILED_PY_DIR,
      path_str proto_file]"

definition protol_args :: "path list \<Rightarrow> string list" where
  "protol_args proto_files =
     [''protol'',
      ''--create-package'',
      ''--in-place'',
      ''--python-out='' @ path_str COMPILED_PY_DIR,
      ''protoc'',
      ''--proto-path='' @ path_str PROTO_DIR] @ map path_str proto_files"

text \<open>The body of the \<open>for\<close> loop, once per enumerated file, in order.\<close>

fun python_loop :: "programs \<Rightarrow> path list \<Rightarrow> world \<Rightarrow> py_error + world" where
  "python_loop ps [] w = Inr w"
| "python_loop ps (proto_file # rest) w =
     (case subprocess_run ps (python_protoc_args proto_file) python_check w of
        Inl e \<Rightarrow> Inl e
      | Inr (cp, w') \<Rightarrow> python_loop ps rest w')"

text \<open>
  The script, top to bottom. The generator that the loop iterates over reads the whole
  directory when the loop asks for its first element, before the first compiler is started;
  the second enumeration is made while the argument list of \<open>protol\<close> is built, after
  the second message has been logged.
\<close>

definition compile_python :: "programs \<Rightarrow> filesystem \<Rightarrow> py_error + world" where
  "compile_python ps s =
     (case pathlib_mkdir COMPILED_PY_DIR True True s of
        Inl e \<Rightarrow> Inl e
      | Inr s0 \<Rightarrow>
          (let w0 = logger_info ''Compiling proto files for Python...'' \<lparr>fs = s0, trace = []\<rparr>;
               (proto_files, w1) = path_glob PROTO_DIR ''.proto'' w0
           in case python_loop ps proto_files w1 of
                Inl e \<Rightarrow> Inl e
              | Inr w2 \<Rightarrow>
                  (let w3 = logger_info ''Fixing imports for Python...'' w2;
                       (fix_files, w4) = path_glob PROTO_DIR ''.proto'' w3
                   in case subprocess_run ps (protol_args fix_files) python_check w4 of
                        Inl e \<Rightarrow> Inl e
                      | Inr (cp, w5) \<Rightarrow>
                          Inr (logger_info
                                 (''Python proto files compiled to '' @ path_str COMPILED_PY_DIR
                                    @ '' with fixed imports'') w5))))"

section \<open>compile\_typescript.py\<close>

definition COMPILED_TS_DIR :: path where
  "COMPILED_TS_DIR = [''packages'', ''proto'', ''src'', ''lib'', ''gen'']"

definition typescript_check :: "bool option" where
  "typescript_check = Some False"

definition typescript_protoc_args :: "path \<Rightarrow> string list" where
  "typescript_protoc_args proto_file =
     [''protoc'',
      ''--proto_path='' @ path_str PROTO_DIR,
      ''--plugin=node_modules/.bin/protoc-gen-ts_proto'',
      ''--ts_proto_out='' @ path_str COMPILED_TS_DIR,
      ''--ts_proto_opt=importSuffix=.js'',
      path_str proto_file]"

fun typescript_loop :: "programs \<Rightarrow> path list \<Rightarrow> world \<Rightarrow> py_error + world" where
  "typescript_loop ps [] w = Inr w"
| "typescript_loop ps (proto_file # rest) w =
     (case subprocess_run ps (typescript_protoc_args proto_file) typescript_check w of
        Inl e \<Rightarrow> Inl e
      | Inr (cp, w') \<Rightarrow> typescript_loop ps rest w')"

definition compile_typescript :: "programs \<Rightarrow> filesystem \<Rightarrow> py_error + world" where
  "compile_typescript ps s =
     (case pathlib_mkdir COMPILED_TS_DIR True True s of
        Inl e \<Rightarrow> Inl e
      | Inr s0 \<Rightarrow>
          (let w0 = logger_info ''Compiling proto files for TypeScript...'' \<lparr>fs = s0, trace = []\<rparr>;
               (proto_files, w1) = path_glob PROTO_DIR ''.proto'' w0
           in case typescript_loop ps proto_files w1 of
                Inl e \<Rightarrow> Inl e
              | Inr w2 \<Rightarrow>
                  Inr (logger_info
                         (''TypeScript proto files compiled to '' @ path_str COMPILED_TS_DIR) w2)))"

section \<open>Observations on a trace\<close>

fun spawn_args :: "event \<Rightarrow> string list list" where
  "spawn_args (Spawn argv s code) = [argv]"
| "spawn_args e = []"

fun spawn_fs :: "event \<Rightarrow> filesystem list" where
  "spawn_fs (Spawn argv s code) = [s]"
| "spawn_fs e = []"

fun listed :: "event \<Rightarrow> path list list" where
  "listed (Listed s files) = [files]"
| "listed e = []"

fun listed_fs :: "event \<Rightarrow> filesystem list" where
  "listed_fs (Listed s files) = [s]"
| "listed_fs e = []"

text \<open>The argument vectors of the subprocesses of a trace, in order.\<close>

definition invocations :: "event list \<Rightarrow> string list list" where
  "invocations t = concat (map spawn_args t)"

text \<open>The enumerations of a trace, in order.\<close>

definition enumerations :: "event list \<Rightarrow> path list list" where
  "enumerations t = concat (map listed t)"

text \<open>An invocation of a compiler is one of \<open>python -m grpc_tools.protoc\<close> or of \<open>protoc\<close>.\<close>

definition is_compiler :: "string list \<Rightarrow> bool" where
  "is_compiler argv = (take 3 argv = [''python'', ''-m'', ''grpc_tools.protoc''] \<or> take 1 argv = [''protoc''])"

definition is_import_fixer :: "string list \<Rightarrow> bool" where
  "is_import_fixer argv = (take 1 argv = [''protol''])"

text \<open>The filesystems on which the subprocesses of a trace were launched, in order.\<close>

definition launch_states :: "event list \<Rightarrow> filesystem list" where
  "launch_states t = concat (map spawn_fs t)"

text \<open>The filesystems from which the enumerations of a trace were taken, in order.\<close>

definition listing_states :: "event list \<Rightarrow> filesystem list" where
  "listing_states t = concat (map listed_fs t)"

text \<open>A trace without the exit statuses it recorded.\<close>

fun forget_status :: "event \<Rightarrow> event" where
  "forget_status (Spawn argv s code) = Spawn argv s 0"
| "forget_status e = e"

section \<open>Assumptions on the environment\<close>

text \<open>The external programs leave the entry \<open>p\<close> of kind \<open>n\<close> in place.\<close>

definition keeps :: "programs \<Rightarrow> path \<Rightarrow> node \<Rightarrow> bool" where
  "keeps ps p n = (\<forall>argv s. lookup s p = Some n \<longrightarrow> lookup (snd (snd (ps argv s))) p = Some n)"

text \<open>Two families of programs change the filesystem in the same way.\<close>

definition same_effects :: "programs \<Rightarrow> programs \<Rightarrow> bool" where
  "same_effects ps ps' = (\<forall>argv s. snd (snd (ps argv s)) = snd (snd (ps' argv s)))"

text \<open>A path together with all its parents, from the working directory down.\<close>

definition ancestors :: "path \<Rightarrow> path list" where
  "ancestors p = map (\<lambda>n. take n p) [0..<Suc (length p)]"

text \<open>In a well-formed filesystem every entry lies in a directory.\<close>

definition well_formed :: "filesystem \<Rightarrow> bool" where
  "well_formed s = list_all (\<lambda>e. is_dir s (parent (fst e))) s"

section \<open>The loops, unfolded\<close>

text \<open>
  The events and the filesystem that running the argument vectors one after the other leaves
  behind, whatever the exit statuses.
\<close>

fun loop_events :: "programs \<Rightarrow> string list list \<Rightarrow> filesystem \<Rightarrow> event list" where
  "loop_events ps [] s = []"
| "loop_events ps (argv # rest) s =
     Spawn argv s (fst (ps argv s)) # loop_events ps rest (snd (snd (ps argv s)))"

fun loop_fs :: "programs \<Rightarrow> string list list \<Rightarrow> filesystem \<Rightarrow> filesystem" where
  "loop_fs ps [] s = s"
| "loop_fs ps (argv # rest) s = loop_fs ps rest (snd (snd (ps argv s)))"

section \<open>An example environment\<close>

text \<open>A proto directory with two proto files and one other file; every program fails.\<close>

definition example_fs :: filesystem where
  "example_fs =
     [([''proto''], Dir),
      ([''proto'', ''a.proto''], File),
      ([''proto'', ''README''], File),
      ([''proto'', ''b.proto''], File)]"

definition failing_programs :: programs where
  "failing_programs argv s = (1, ''error'', s)"

text \<open>Programs that succeed silently, with the same effect on the filesystem.\<close>

definition quiet_programs :: programs where
  "quiet_programs argv s = (0, [], s)"

text \<open>The directories that the two scripts create in the example.\<close>

definition example_py_dirs :: filesystem where
  "example_py_dirs =
     [([''backend''], Dir),
      ([''backend'', ''packages''], Dir),
      ([''backend'', ''packages'', ''proto''], Dir),
      ([''backend'', ''packages'', ''proto'', ''proto''], Dir),
      ([''backend'', ''packages'', ''proto'', ''proto'', ''compiled''], Dir)]"

definition example_ts_dirs :: filesystem where
  "example_ts_dirs =
     [([''packages''], Dir),
      ([''packages'', ''proto''], Dir),
      ([''packages'', ''proto'', ''src''], Dir),
      ([''packages'', ''proto'', ''src'', ''lib''], Dir),
      ([''packages'', ''proto'', ''src'', ''lib'', ''gen''], Dir)]"

section \<open>Directory creation\<close>

lemma lookup_append: "lookup s q = Some n \<Longrightarrow> lookup (s @ ext) q = Some n"
  by (simp add: lookup_def map_add_Some_iff split: if_splits)

lemma os_mkdir_Inr:
  "os_mkdir p s = Inr s' \<Longrightarrow> s' = s @ [(p, Dir)] \<and> lookup s p = None \<and> is_dir s (parent p)"
  by (auto simp: os_mkdir_def is_dir_def split: if_splits option.splits node.splits)

lemma os_mkdir_exists: "is_dir s p \<Longrightarrow> os_mkdir p s = Inl FileExistsError"
  by (simp add: os_mkdir_def is_dir_def)

lemma pathlib_mkdir_exists: "is_dir s p \<Longrightarrow> pathlib_mkdir p parents True s = Inr s"
  by (subst pathlib_mkdir.simps) (simp add: os_mkdir_exists)



lemma mkdir_created: "os_mkdir p s = Inr s2 \<Longrightarrow> pathlib_mkdir p parents exist_ok s = Inr s2"
  by (subst pathlib_mkdir.simps) simp

lemma mkdir_other_error:
  "os_mkdir p s = Inl e \<Longrightarrow> e \<noteq> FileNotFoundError \<Longrightarrow>
   pathlib_mkdir p parents exist_ok s = (if \<not> exist_ok \<or> \<not> is_dir s p then Inl e else Inr s)"
  by (subst pathlib_mkdir.simps) simp

lemma mkdir_missing_parent:
  "os_mkdir p s = Inl FileNotFoundError \<Longrightarrow>
   pathlib_mkdir p parents exist_ok s =
     (if \<not> parents \<or> parent p = p then Inl FileNotFoundError
      else (case pathlib_mkdir (parent p) True True s of
              Inl e' \<Rightarrow> Inl e'
            | Inr s1 \<Rightarrow> pathlib_mkdir p False exist_ok s1))"
  by (subst pathlib_mkdir.simps) simp

lemma pathlib_mkdir_extends:
  "pathlib_mkdir p parents exist_ok s = Inr s' \<Longrightarrow> \<exists>ext. s' = s @ ext \<and> (\<forall>e \<in> set ext. snd e = Dir)"
proof (induction p parents exist_ok s arbitrary: s' rule: pathlib_mkdir.induct)
  case (1 p parents exist_ok s)
  show ?case
  proof (cases "os_mkdir p s")
    case (Inr s2)
    with "1.prems" have "s' = s2"
      by (simp add: mkdir_created)
    with Inr have "s' = s @ [(p, Dir)]"
      using os_mkdir_Inr [of p s s2] by simp
    then show ?thesis by simp
  next
    case (Inl e)
    show ?thesis
    proof (cases "e = FileNotFoundError")
      case False
      with Inl "1.prems" have "s' = s"
        by (simp add: mkdir_other_error split: if_splits)
      then show ?thesis by simp
    next
      case True
      with Inl have fnf: "os_mkdir p s = Inl FileNotFoundError" by simp
      from "1.prems" have go: "\<not> (\<not> parents \<or> parent p = p)"
        by (auto simp: mkdir_missing_parent [OF fnf] split: if_splits)
      from "1.prems" go obtain s1 where
        up: "pathlib_mkdir (parent p) True True s = Inr s1" and
        self: "pathlib_mkdir p False exist_ok s1 = Inr s'"
        by (auto simp: mkdir_missing_parent [OF fnf] split: if_splits sum.splits)
      from "1.IH"(1) [OF Inl True go up] obtain e1 where
        e1: "s1 = s @ e1" "\<forall>e \<in> set e1. snd e = Dir" by blast
      from "1.IH"(2) [OF Inl True go up self] obtain e2 where
        e2: "s' = s1 @ e2" "\<forall>e \<in> set e2. snd e = Dir" by blast
      from e1 e2 have "s' = s @ (e1 @ e2) \<and> (\<forall>e \<in> set (e1 @ e2). snd e = Dir)"
        by auto
      then show ?thesis by blast
    qed
  qed
qed


lemma pathlib_mkdir_is_dir:
  "pathlib_mkdir p parents exist_ok s = Inr s' \<Longrightarrow> is_dir s' p"
proof (induction p parents exist_ok s arbitrary: s' rule: pathlib_mkdir.induct)
  case (1 p parents exist_ok s)
  show ?case
  proof (cases "os_mkdir p s")
    case (Inr s2)
    with "1.prems" have "s' = s2"
      by (simp add: mkdir_created)
    with Inr have "s' = s @ [(p, Dir)]" "lookup s p = None"
      using os_mkdir_Inr [of p s s2] by simp_all
    then show ?thesis
      by (auto simp: is_dir_def lookup_def map_add_Some_iff split: if_splits)
  next
    case (Inl e)
    show ?thesis
    proof (cases "e = FileNotFoundError")
      case False
      with Inl "1.prems" show ?thesis
        by (auto simp: mkdir_other_error split: if_splits)
    next
      case True
      with Inl have fnf: "os_mkdir p s = Inl FileNotFoundError" by simp
      from "1.prems" have go: "\<not> (\<not> parents \<or> parent p = p)"
        by (auto simp: mkdir_missing_parent [OF fnf] split: if_splits)
      from "1.prems" go obtain s1 where
        up: "pathlib_mkdir (parent p) True True s = Inr s1" and
        self: "pathlib_mkdir p False exist_ok s1 = Inr s'"
        by (auto simp: mkdir_missing_parent [OF fnf] split: if_splits sum.splits)
      from "1.IH"(2) [OF Inl True go up self] show ?thesis .
    qed
  qed
qed

lemma lookup_extended:
  "lookup s p = None \<Longrightarrow> \<forall>e \<in> set ext. snd e = Dir \<Longrightarrow>
   lookup (s @ ext) p = None \<or> lookup (s @ ext) p = Some Dir"
proof (cases "lookup (s @ ext) p")
  case None
  then show ?thesis by simp
next
  case (Some n)
  assume "lookup s p = None" "\<forall>e \<in> set ext. snd e = Dir"
  with Some have "map_of ext p = Some n"
    by (auto simp: lookup_def map_add_Some_iff split: if_splits)
  then have "(p, n) \<in> set ext"
    by (rule map_of_SomeD)
  with \<open>\<forall>e \<in> set ext. snd e = Dir\<close> have "n = Dir" by auto
  with Some show ?thesis by simp
qed

lemma pathlib_mkdir_flat:
  assumes "is_dir s (parent p)" "lookup s p = None \<or> lookup s p = Some Dir"
  shows "\<exists>s'. pathlib_mkdir p False True s = Inr s'"
proof (cases "lookup s p")
  case None
  with assms(1) have "os_mkdir p s = Inr (s @ [(p, Dir)])"
    by (simp add: os_mkdir_def is_dir_def)
  then show ?thesis by (simp add: mkdir_created)
next
  case (Some n)
  with assms(2) have "is_dir s p" by (simp add: is_dir_def)
  then show ?thesis by (simp add: pathlib_mkdir_exists)
qed

lemma pathlib_mkdir_total:
  "(\<forall>n \<le> length p. lookup s (take n p) \<noteq> Some File) \<Longrightarrow>
   \<exists>s'. pathlib_mkdir p True True s = Inr s'"
proof (induction p rule: rev_induct)
  case Nil
  have "is_dir s []" by (simp add: is_dir_def lookup_def)
  then show ?case by (simp add: pathlib_mkdir_exists)
next
  case (snoc x q)
  let ?p = "q @ [x]"
  from snoc.prems have self: "lookup s ?p \<noteq> Some File"
    by (auto dest: spec [of _ "length ?p"])
  have pre: "\<forall>n \<le> length q. lookup s (take n q) \<noteq> Some File"
  proof (intro allI impI)
    fix n assume "n \<le> length q"
    with snoc.prems [rule_format, of n] show "lookup s (take n q) \<noteq> Some File" by simp
  qed
  from pre [rule_format, of "length q"] have up: "lookup s q \<noteq> Some File" by simp
  have par: "parent ?p = q" "parent ?p \<noteq> ?p" by (simp_all add: parent_def)
  show ?case
  proof (cases "lookup s ?p")
    case (Some n)
    with self have "is_dir s ?p" by (cases n) (simp_all add: is_dir_def)
    then show ?thesis by (simp add: pathlib_mkdir_exists)
  next
    case None
    show ?thesis
    proof (cases "lookup s q")
      case (Some n)
      with up have "is_dir s q" by (cases n) (simp_all add: is_dir_def)
      with None have "os_mkdir ?p s = Inr (s @ [(?p, Dir)])"
        by (simp add: os_mkdir_def is_dir_def par)
      then show ?thesis by (simp add: mkdir_created)
    next
      case none: None
      with None have fnf: "os_mkdir ?p s = Inl FileNotFoundError"
        by (simp add: os_mkdir_def par)
      from snoc.IH [OF pre] obtain s1 where s1: "pathlib_mkdir q True True s = Inr s1" ..
      from pathlib_mkdir_extends [OF s1] obtain ext where
        ext: "s1 = s @ ext" "\<forall>e \<in> set ext. snd e = Dir" by blast
      from lookup_extended [OF None ext(2)] ext(1)
      have "lookup s1 ?p = None \<or> lookup s1 ?p = Some Dir" by simp
      moreover from pathlib_mkdir_is_dir [OF s1] have "is_dir s1 (parent ?p)"
        by (simp add: par)
      ultimately obtain s' where "pathlib_mkdir ?p False True s1 = Inr s'"
        using pathlib_mkdir_flat by blast
      with s1 par show ?thesis
        by (simp add: mkdir_missing_parent [OF fnf])
    qed
  qed
qed

section \<open>The runs of the two scripts\<close>

lemma subprocess_run_unchecked:
  "subprocess_run ps argv (Some False) w =
     Inr (\<lparr>args = argv, returncode = fst (ps argv (fs w))\<rparr>,
          \<lparr>fs = snd (snd (ps argv (fs w))),
           trace = trace w @ [Spawn argv (fs w) (fst (ps argv (fs w)))]\<rparr>)"
  by (simp add: subprocess_run_def split: prod.splits)

lemma python_loop_unfolded:
  "python_loop ps files w =
     Inr \<lparr>fs = loop_fs ps (map python_protoc_args files) (fs w),
          trace = trace w @ loop_events ps (map python_protoc_args files) (fs w)\<rparr>"
  by (induction files arbitrary: w) (simp_all add: subprocess_run_unchecked python_check_def)

lemma typescript_loop_unfolded:
  "typescript_loop ps files w =
     Inr \<lparr>fs = loop_fs ps (map typescript_protoc_args files) (fs w),
          trace = trace w @ loop_events ps (map typescript_protoc_args files) (fs w)\<rparr>"
  by (induction files arbitrary: w) (simp_all add: subprocess_run_unchecked typescript_check_def)

lemma invocations_loop_events [simp]: "invocations (loop_events ps argvs s) = argvs"
  by (induction argvs arbitrary: s) (simp_all add: invocations_def)

lemma enumerations_loop_events [simp]: "enumerations (loop_events ps argvs s) = []"
  by (induction argvs arbitrary: s) (simp_all add: enumerations_def)

lemma listing_states_loop_events [simp]: "listing_states (loop_events ps argvs s) = []"
  by (induction argvs arbitrary: s) (simp_all add: listing_states_def)

lemma invocations_append [simp]: "invocations (t @ u) = invocations t @ invocations u"
  by (simp add: invocations_def)

lemma enumerations_append [simp]: "enumerations (t @ u) = enumerations t @ enumerations u"
  by (simp add: enumerations_def)

lemma listing_states_append [simp]: "listing_states (t @ u) = listing_states t @ listing_states u"
  by (simp add: listing_states_def)

lemma launch_states_append [simp]: "launch_states (t @ u) = launch_states t @ launch_states u"
  by (simp add: launch_states_def)

lemma observers_Cons [simp]:
  "invocations (Log m # t) = invocations t"
  "invocations (Listed s f # t) = invocations t"
  "invocations (Spawn a s c # t) = a # invocations t"
  "invocations [] = []"
  "enumerations (Log m # t) = enumerations t"
  "enumerations (Listed s f # t) = f # enumerations t"
  "enumerations (Spawn a s c # t) = enumerations t"
  "enumerations [] = []"
  "listing_states (Log m # t) = listing_states t"
  "listing_states (Listed s f # t) = s # listing_states t"
  "listing_states (Spawn a s c # t) = listing_states t"
  "listing_states [] = []"
  "launch_states (Log m # t) = launch_states t"
  "launch_states (Listed s f # t) = launch_states t"
  "launch_states (Spawn a s c # t) = s # launch_states t"
  "launch_states [] = []"
  by (simp_all add: invocations_def enumerations_def listing_states_def launch_states_def)

lemma loop_kept:
  assumes "\<And>argv s. P s \<Longrightarrow> P (snd (snd (ps argv s)))"
  shows "P s \<Longrightarrow> P (loop_fs ps argvs s) \<and> (\<forall>sn \<in> set (launch_states (loop_events ps argvs s)). P sn)"
proof (induction argvs arbitrary: s)
  case Nil
  then show ?case by simp
next
  case (Cons a rest)
  from Cons.prems have "P (snd (snd (ps a s)))" by (rule assms)
  from Cons.IH [OF this] Cons.prems show ?case by simp
qed

lemma forget_loop_events:
  "same_effects ps ps' \<Longrightarrow>
   map forget_status (loop_events ps argvs s) = map forget_status (loop_events ps' argvs s)
   \<and> loop_fs ps argvs s = loop_fs ps' argvs s"
proof (induction argvs arbitrary: s)
  case Nil
  then show ?case by simp
next
  case (Cons a rest)
  from Cons.prems have "snd (snd (ps a s)) = snd (snd (ps' a s))"
    by (simp add: same_effects_def)
  with Cons.IH [OF Cons.prems, of "snd (snd (ps' a s))"] show ?case by simp
qed

text \<open>The two scripts after a successful directory creation.\<close>

lemma compile_python_run:
  fixes ps :: programs
  assumes "pathlib_mkdir COMPILED_PY_DIR True True s = Inr s0"
  defines "F1 \<equiv> glob PROTO_DIR ''.proto'' s0"
  defines "s1 \<equiv> loop_fs ps (map python_protoc_args F1) s0"
  defines "F2 \<equiv> glob PROTO_DIR ''.proto'' s1"
  shows "compile_python ps s =
     Inr \<lparr>fs = snd (snd (ps (protol_args F2) s1)),
          trace = [Log ''Compiling proto files for Python...'', Listed s0 F1]
                  @ loop_events ps (map python_protoc_args F1) s0
                  @ [Log ''Fixing imports for Python...'', Listed s1 F2,
                     Spawn (protol_args F2) s1 (fst (ps (protol_args F2) s1)),
                     Log (''Python proto files compiled to '' @ path_str COMPILED_PY_DIR
                            @ '' with fixed imports'')]\<rparr>"
  using assms(1) unfolding F1_def s1_def F2_def
  by (simp add: compile_python_def logger_info_def path_glob_def python_loop_unfolded
      subprocess_run_unchecked python_check_def Let_def)

lemma compile_typescript_run:
  assumes "pathlib_mkdir COMPILED_TS_DIR True True s = Inr s0"
  defines "F1 \<equiv> glob PROTO_DIR ''.proto'' s0"
  shows "compile_typescript ps s =
     Inr \<lparr>fs = loop_fs ps (map typescript_protoc_args F1) s0,
          trace = [Log ''Compiling proto files for TypeScript...'', Listed s0 F1]
                  @ loop_events ps (map typescript_protoc_args F1) s0
                  @ [Log (''TypeScript proto files compiled to '' @ path_str COMPILED_TS_DIR)]\<rparr>"
  using assms(1) unfolding F1_def
  by (simp add: compile_typescript_def logger_info_def path_glob_def typescript_loop_unfolded Let_def)

lemma compile_python_Inr:
  "compile_python ps s = Inr w \<Longrightarrow> \<exists>s0. pathlib_mkdir COMPILED_PY_DIR True True s = Inr s0"
  by (cases "pathlib_mkdir COMPILED_PY_DIR True True s") (simp_all add: compile_python_def)

lemma compile_typescript_Inr:
  "compile_typescript ps s = Inr w \<Longrightarrow> \<exists>s0. pathlib_mkdir COMPILED_TS_DIR True True s = Inr s0"
  by (cases "pathlib_mkdir COMPILED_TS_DIR True True s") (simp_all add: compile_typescript_def)

lemma is_compiler_python [simp]: "is_compiler (python_protoc_args f)"
  by (simp add: is_compiler_def python_protoc_args_def)

lemma is_compiler_typescript [simp]: "is_compiler (typescript_protoc_args f)"
  by (simp add: is_compiler_def typescript_protoc_args_def)

lemma not_compiler_protol [simp]: "\<not> is_compiler (protol_args F)"
  by (simp add: is_compiler_def protol_args_def)

lemma is_import_fixer_protol [simp]: "is_import_fixer (protol_args F)"
  by (simp add: is_import_fixer_def protol_args_def)

lemma not_import_fixer_python [simp]: "\<not> is_import_fixer (python_protoc_args f)"
  by (simp add: is_import_fixer_def python_protoc_args_def)

lemma filter_compiler_python [simp]:
  "filter is_compiler (map python_protoc_args F) = map python_protoc_args F"
  by (induction F) simp_all

lemma filter_compiler_typescript [simp]:
  "filter is_compiler (map typescript_protoc_args F) = map typescript_protoc_args F"
  by (induction F) simp_all

lemma filter_fixer_python [simp]:
  "filter is_import_fixer (map python_protoc_args F) = []"
  by (induction F) simp_all

section \<open>The example, evaluated\<close>

lemma example_mkdir_python:
  "pathlib_mkdir COMPILED_PY_DIR True True example_fs = Inr (example_fs @ example_py_dirs)"
  by code_simp

lemma example_mkdir_typescript:
  "pathlib_mkdir COMPILED_TS_DIR True True example_fs = Inr (example_fs @ example_ts_dirs)"
  by code_simp

lemma example_glob_python:
  "glob PROTO_DIR ''.proto'' (example_fs @ example_py_dirs)
   = [[''proto'', ''a.proto''], [''proto'', ''b.proto'']]"
  by code_simp

lemma example_glob_typescript:
  "glob PROTO_DIR ''.proto'' (example_fs @ example_ts_dirs)
   = [[''proto'', ''a.proto''], [''proto'', ''b.proto'']]"
  by code_simp

lemma empty_mkdir_python:
  "pathlib_mkdir COMPILED_PY_DIR True True [] = Inr example_py_dirs"
  by code_simp

lemma empty_mkdir_typescript:
  "pathlib_mkdir COMPILED_TS_DIR True True [] = Inr example_ts_dirs"
  by code_simp

lemma empty_glob_python: "glob PROTO_DIR ''.proto'' example_py_dirs = []"
  by code_simp

lemma empty_glob_typescript: "glob PROTO_DIR ''.proto'' example_ts_dirs = []"
  by code_simp

lemma path_str_py [simp]: "path_str COMPILED_PY_DIR = ''backend/packages/proto/proto/compiled''"
  by (simp add: path_str_def COMPILED_PY_DIR_def)

lemma path_str_ts [simp]: "path_str COMPILED_TS_DIR = ''packages/proto/src/lib/gen''"
  by (simp add: path_str_def COMPILED_TS_DIR_def)

lemma path_str_proto [simp]: "path_str PROTO_DIR = ''proto''"
  by (simp add: path_str_def PROTO_DIR_def)

section \<open>The claims\<close>

text \<open>
  C1. In either pipeline a non-zero exit status of a compiler invocation is not fatal:
  \<open>subprocess.run\<close> with \<open>check=False\<close> returns the exit status, whatever it is, and does
  not raise. Once the output directory has been created, the run invokes the compiler for
  every enumerated proto file, in order, whatever the exit statuses of the programs are (so
  also when every invocation fails), and ends with its completion message.
\<close>

theorem compiler_failure_not_fatal:
  fixes ps :: programs
  shows
    "(\<exists>cp w'. subprocess_run ps argv python_check w = Inr (cp, w')
        \<and> returncode cp = fst (ps argv (fs w)))
     \<and> (\<exists>cp w'. subprocess_run ps argv typescript_check w = Inr (cp, w')
        \<and> returncode cp = fst (ps argv (fs w)))
     \<and> (pathlib_mkdir COMPILED_PY_DIR True True s = Inr s0 \<longrightarrow>
          (\<exists>w. compile_python ps s = Inr w
             \<and> filter is_compiler (invocations (trace w))
                 = map python_protoc_args (glob PROTO_DIR ''.proto'' s0)
             \<and> last (trace w)
                 = Log ''Python proto files compiled to backend/packages/proto/proto/compiled with fixed imports''))
     \<and> (pathlib_mkdir COMPILED_TS_DIR True True s = Inr s0' \<longrightarrow>
          (\<exists>w. compile_typescript ps s = Inr w
             \<and> filter is_compiler (invocations (trace w))
                 = map typescript_protoc_args (glob PROTO_DIR ''.proto'' s0')
             \<and> last (trace w)
                 = Log ''TypeScript proto files compiled to packages/proto/src/lib/gen''))"
proof (intro conjI impI)
  show "\<exists>cp w'. subprocess_run ps argv python_check w = Inr (cp, w')
          \<and> returncode cp = fst (ps argv (fs w))"
    by (simp add: python_check_def subprocess_run_unchecked)
  show "\<exists>cp w'. subprocess_run ps argv typescript_check w = Inr (cp, w')
          \<and> returncode cp = fst (ps argv (fs w))"
    by (simp add: typescript_check_def subprocess_run_unchecked)
next
  assume "pathlib_mkdir COMPILED_PY_DIR True True s = Inr s0"
  from compile_python_run [OF this, of ps]
  show "\<exists>w. compile_python ps s = Inr w
          \<and> filter is_compiler (invocations (trace w))
              = map python_protoc_args (glob PROTO_DIR ''.proto'' s0)
          \<and> last (trace w)
              = Log ''Python proto files compiled to backend/packages/proto/proto/compiled with fixed imports''"
    by simp
next
  assume "pathlib_mkdir COMPILED_TS_DIR True True s = Inr s0'"
  from compile_typescript_run [OF this, of ps]
  show "\<exists>w. compile_typescript ps s = Inr w
          \<and> filter is_compiler (invocations (trace w))
              = map typescript_protoc_args (glob PROTO_DIR ''.proto'' s0')
          \<and> last (trace w)
              = Log ''TypeScript proto files compiled to packages/proto/src/lib/gen''"
    by simp
qed

theorem compiler_failure_not_fatal_witness:
  "pathlib_mkdir COMPILED_PY_DIR True True example_fs = Inr (example_fs @ example_py_dirs)
   \<and> pathlib_mkdir COMPILED_TS_DIR True True example_fs = Inr (example_fs @ example_ts_dirs)
   \<and> fst (failing_programs [] []) = 1
   \<and> (\<exists>w. compile_python failing_programs example_fs = Inr w
         \<and> filter is_compiler (invocations (trace w))
             = [python_protoc_args [''proto'', ''a.proto''],
                python_protoc_args [''proto'', ''b.proto'']]
         \<and> last (trace w)
             = Log ''Python proto files compiled to backend/packages/proto/proto/compiled with fixed imports'')
   \<and> (\<exists>w. compile_typescript failing_programs example_fs = Inr w
         \<and> filter is_compiler (invocations (trace w))
             = [typescript_protoc_args [''proto'', ''a.proto''],
                typescript_protoc_args [''proto'', ''b.proto'']]
         \<and> last (trace w)
             = Log ''TypeScript proto files compiled to packages/proto/src/lib/gen'')"
  using compiler_failure_not_fatal
          [where ps = failing_programs and s = example_fs
             and ?s0.0 = "example_fs @ example_py_dirs" and s0' = "example_fs @ example_ts_dirs"]
        example_mkdir_python example_mkdir_typescript
  by (simp add: example_glob_python example_glob_typescript failing_programs_def)

text \<open>
  C2. Once the output directory has been created, a run of either pipeline returns, and
  when its enumeration of the proto directory yields \<open>N\<close> paths it makes exactly \<open>N\<close>
  compiler invocations, one per enumerated file and in the order of the enumeration. When the
  enumeration is empty no compiler is invoked, and the TypeScript pipeline then starts no
  external program at all.
\<close>

theorem one_invocation_per_file:
  fixes ps :: programs
  shows
    "(pathlib_mkdir COMPILED_PY_DIR True True s = Inr s0 \<longrightarrow>
        (\<exists>w files rest. compile_python ps s = Inr w
           \<and> enumerations (trace w) = files # rest
           \<and> files = glob PROTO_DIR ''.proto'' s0
           \<and> filter is_compiler (invocations (trace w)) = map python_protoc_args files
           \<and> length (filter is_compiler (invocations (trace w))) = length files
           \<and> (files = [] \<longrightarrow> filter is_compiler (invocations (trace w)) = [])))
     \<and> (pathlib_mkdir COMPILED_TS_DIR True True s = Inr s0' \<longrightarrow>
        (\<exists>w files. compile_typescript ps s = Inr w
           \<and> enumerations (trace w) = [files]
           \<and> files = glob PROTO_DIR ''.proto'' s0'
           \<and> filter is_compiler (invocations (trace w)) = map typescript_protoc_args files
           \<and> length (filter is_compiler (invocations (trace w))) = length files
           \<and> (files = [] \<longrightarrow> invocations (trace w) = [])))"
proof (intro conjI impI)
  assume "pathlib_mkdir COMPILED_PY_DIR True True s = Inr s0"
  from compile_python_run [OF this, of ps]
  show "\<exists>w files rest. compile_python ps s = Inr w
          \<and> enumerations (trace w) = files # rest
          \<and> files = glob PROTO_DIR ''.proto'' s0
          \<and> filter is_compiler (invocations (trace w)) = map python_protoc_args files
          \<and> length (filter is_compiler (invocations (trace w))) = length files
          \<and> (files = [] \<longrightarrow> filter is_compiler (invocations (trace w)) = [])"
    by simp
next
  assume "pathlib_mkdir COMPILED_TS_DIR True True s = Inr s0'"
  from compile_typescript_run [OF this, of ps]
  show "\<exists>w files. compile_typescript ps s = Inr w
          \<and> enumerations (trace w) = [files]
          \<and> files = glob PROTO_DIR ''.proto'' s0'
          \<and> filter is_compiler (invocations (trace w)) = map typescript_protoc_args files
          \<and> length (filter is_compiler (invocations (trace w))) = length files
          \<and> (files = [] \<longrightarrow> invocations (trace w) = [])"
    by simp
qed

theorem one_invocation_per_file_witness:
  "pathlib_mkdir COMPILED_PY_DIR True True example_fs = Inr (example_fs @ example_py_dirs)
   \<and> pathlib_mkdir COMPILED_TS_DIR True True example_fs = Inr (example_fs @ example_ts_dirs)
   \<and> (\<exists>w. compile_python failing_programs example_fs = Inr w
         \<and> length (filter is_compiler (invocations (trace w))) = 2
         \<and> length (hd (enumerations (trace w))) = 2)
   \<and> (\<exists>w. compile_typescript failing_programs example_fs = Inr w
         \<and> length (filter is_compiler (invocations (trace w))) = 2
         \<and> length (hd (enumerations (trace w))) = 2)
   \<and> pathlib_mkdir COMPILED_PY_DIR True True [] = Inr example_py_dirs
   \<and> pathlib_mkdir COMPILED_TS_DIR True True [] = Inr example_ts_dirs
   \<and> glob PROTO_DIR ''.proto'' example_py_dirs = []
   \<and> glob PROTO_DIR ''.proto'' example_ts_dirs = []
   \<and> (\<exists>w. compile_python failing_programs [] = Inr w
         \<and> filter is_compiler (invocations (trace w)) = [])
   \<and> (\<exists>w. compile_typescript failing_programs [] = Inr w \<and> invocations (trace w) = [])"
  using one_invocation_per_file
          [where ps = failing_programs and s = example_fs
             and ?s0.0 = "example_fs @ example_py_dirs" and s0' = "example_fs @ example_ts_dirs"]
        one_invocation_per_file
          [where ps = failing_programs and s = "[]"
             and ?s0.0 = example_py_dirs and s0' = example_ts_dirs]
        example_mkdir_python example_mkdir_typescript empty_mkdir_python empty_mkdir_typescript
  by (auto simp: example_glob_python example_glob_typescript empty_glob_python
      empty_glob_typescript)

text \<open>
  C3. Once the output directory has been created, a run of the Python pipeline invokes the
  import fixer exactly once, whatever the number of proto files (also none): the one
  invocation is the last subprocess of the run, and its argument vector lists every file of
  the enumeration made for it.
\<close>

theorem import_fixer_once:
  fixes ps :: programs
  shows
    "pathlib_mkdir COMPILED_PY_DIR True True s = Inr s0 \<Longrightarrow>
       \<exists>w F1 F2. compile_python ps s = Inr w
         \<and> enumerations (trace w) = [F1, F2]
         \<and> F1 = glob PROTO_DIR ''.proto'' s0
         \<and> invocations (trace w) = map python_protoc_args F1 @ [protol_args F2]
         \<and> filter is_import_fixer (invocations (trace w)) = [protol_args F2]
         \<and> length (filter is_import_fixer (invocations (trace w))) = 1"
proof -
  assume "pathlib_mkdir COMPILED_PY_DIR True True s = Inr s0"
  from compile_python_run [OF this, of ps] show ?thesis
    by simp
qed

theorem import_fixer_once_witness:
  "pathlib_mkdir COMPILED_PY_DIR True True example_fs = Inr (example_fs @ example_py_dirs)
   \<and> (\<exists>w. compile_python failing_programs example_fs = Inr w
         \<and> length (invocations (trace w)) = 3
         \<and> length (filter is_import_fixer (invocations (trace w))) = 1)
   \<and> pathlib_mkdir COMPILED_PY_DIR True True [] = Inr example_py_dirs
   \<and> (\<exists>w. compile_python failing_programs [] = Inr w
         \<and> length (invocations (trace w)) = 1
         \<and> length (filter is_import_fixer (invocations (trace w))) = 1)"
  using import_fixer_once [OF example_mkdir_python, of failing_programs]
        import_fixer_once [OF empty_mkdir_python, of failing_programs]
        example_mkdir_python empty_mkdir_python
  by (auto simp: example_glob_python empty_glob_python)

text \<open>
  C4. In the Python pipeline the import fixer is the last subprocess of the run: every
  compiler invocation stands before it in the trace, each recorded with its exit status, so
  each has run to completion, and the import fixer is launched on the filesystem that the
  last of them left. Nothing but the completion message follows it.
\<close>

theorem import_fixer_after_compilers:
  fixes ps :: programs
  shows
    "pathlib_mkdir COMPILED_PY_DIR True True s = Inr s0 \<Longrightarrow>
       \<exists>w before F1 F2 s1 code msg.
         compile_python ps s = Inr w
         \<and> trace w = before @ [Spawn (protol_args F2) s1 code, Log msg]
         \<and> F1 = glob PROTO_DIR ''.proto'' s0
         \<and> filter is_compiler (invocations before) = map python_protoc_args F1
         \<and> filter is_import_fixer (invocations before) = []
         \<and> length (launch_states before) = length F1
         \<and> s1 = loop_fs ps (map python_protoc_args F1) s0
         \<and> is_import_fixer (protol_args F2) \<and> \<not> is_compiler (protol_args F2)"
proof -
  assume mk: "pathlib_mkdir COMPILED_PY_DIR True True s = Inr s0"
  let ?F1 = "glob PROTO_DIR ''.proto'' s0"
  let ?s1 = "loop_fs ps (map python_protoc_args ?F1) s0"
  let ?F2 = "glob PROTO_DIR ''.proto'' ?s1"
  let ?before = "[Log ''Compiling proto files for Python...'', Listed s0 ?F1]
                 @ loop_events ps (map python_protoc_args ?F1) s0
                 @ [Log ''Fixing imports for Python...'', Listed ?s1 ?F2]"
  have len: "length (launch_states (loop_events ps argvs s)) = length argvs" for argvs s
    by (induction argvs arbitrary: s) simp_all
  obtain w where w: "compile_python ps s = Inr w"
    and t: "trace w = ?before @ [Spawn (protol_args ?F2) ?s1 (fst (ps (protol_args ?F2) ?s1)),
               Log (''Python proto files compiled to '' @ path_str COMPILED_PY_DIR
                      @ '' with fixed imports'')]"
    using compile_python_run [OF mk, of ps] by simp
  have "filter is_compiler (invocations ?before) = map python_protoc_args ?F1"
    and "filter is_import_fixer (invocations ?before) = []"
    and "length (launch_states ?before) = length ?F1"
    by (simp_all add: len)
  with w t show ?thesis
    by (intro exI [of _ w] exI [of _ ?before] exI [of _ ?F1] exI [of _ ?F2] exI [of _ ?s1]
        exI [of _ "fst (ps (protol_args ?F2) ?s1)"]
        exI [of _ "''Python proto files compiled to '' @ path_str COMPILED_PY_DIR
                      @ '' with fixed imports''"]) simp
qed

theorem import_fixer_after_compilers_witness:
  "pathlib_mkdir COMPILED_PY_DIR True True example_fs = Inr (example_fs @ example_py_dirs)
   \<and> (\<exists>w before argv s1 code msg.
         compile_python failing_programs example_fs = Inr w
         \<and> trace w = before @ [Spawn argv s1 code, Log msg]
         \<and> is_import_fixer argv
         \<and> filter is_compiler (invocations before)
             = [python_protoc_args [''proto'', ''a.proto''],
                python_protoc_args [''proto'', ''b.proto'']]
         \<and> filter is_import_fixer (invocations before) = [])"
  using import_fixer_after_compilers [OF example_mkdir_python, of failing_programs]
        example_mkdir_python
  by (auto simp: example_glob_python)

section \<open>Well-formed filesystems and what a run keeps\<close>

lemma set_ancestors: "set (ancestors p) = {take n p |n. n \<le> length p}"
proof
  show "set (ancestors p) \<subseteq> {take n p |n. n \<le> length p}"
  proof
    fix q assume "q \<in> set (ancestors p)"
    then obtain n where "n < Suc (length p)" "q = take n p"
      by (auto simp: ancestors_def simp del: upt_Suc)
    then have "q = take n p \<and> n \<le> length p" by simp
    then show "q \<in> {take n p |n. n \<le> length p}" by blast
  qed
next
  show "{take n p |n. n \<le> length p} \<subseteq> set (ancestors p)"
  proof
    fix q assume "q \<in> {take n p |n. n \<le> length p}"
    then obtain n where n: "n \<le> length p" "q = take n p" by blast
    then have "n \<in> set [0..<Suc (length p)]" by (simp del: upt_Suc)
    then have "take n p \<in> (\<lambda>n. take n p) ` set [0..<Suc (length p)]" by (rule imageI)
    with n(2) show "q \<in> set (ancestors p)" by (simp add: ancestors_def del: upt_Suc)
  qed
qed

lemma well_formed_parent:
  assumes "well_formed s" "is_dir s p"
  shows "is_dir s (parent p)"
proof (cases "p = []")
  case True
  then show ?thesis by (simp add: parent_def is_dir_def lookup_def)
next
  case False
  with assms(2) have "map_of s p = Some Dir"
    by (simp add: is_dir_def lookup_def)
  then have "(p, Dir) \<in> set s" by (rule map_of_SomeD)
  with assms(1) show ?thesis
    by (auto simp: well_formed_def list_all_iff)
qed

lemma well_formed_take:
  "well_formed s \<Longrightarrow> is_dir s p \<Longrightarrow> is_dir s (take n p)"
proof (induction p rule: rev_induct)
  case Nil
  then show ?case by simp
next
  case (snoc x q)
  show ?case
  proof (cases "n \<le> length q")
    case True
    from well_formed_parent [OF snoc.prems] have "is_dir s q"
      by (simp add: parent_def)
    from snoc.IH [OF snoc.prems(1) this] True show ?thesis by simp
  next
    case False
    with snoc.prems(2) show ?thesis by simp
  qed
qed

lemma is_dir_append: "is_dir s q \<Longrightarrow> is_dir (s @ ext) q"
  by (simp add: is_dir_def lookup_append)

lemma well_formed_os_mkdir:
  assumes "well_formed s" "os_mkdir p s = Inr s'"
  shows "well_formed s'"
proof -
  from os_mkdir_Inr [OF assms(2)] have s': "s' = s @ [(p, Dir)]" and par: "is_dir s (parent p)"
    by simp_all
  from assms(1) have "\<forall>e \<in> set s. is_dir (s @ [(p, Dir)]) (parent (fst e))"
    by (auto simp: well_formed_def list_all_iff intro: is_dir_append)
  moreover from par have "is_dir (s @ [(p, Dir)]) (parent p)"
    by (rule is_dir_append)
  ultimately show ?thesis
    by (simp add: s' well_formed_def list_all_iff)
qed

lemma well_formed_pathlib_mkdir:
  "pathlib_mkdir p parents exist_ok s = Inr s' \<Longrightarrow> well_formed s \<Longrightarrow> well_formed s'"
proof (induction p parents exist_ok s arbitrary: s' rule: pathlib_mkdir.induct)
  case (1 p parents exist_ok s)
  show ?case
  proof (cases "os_mkdir p s")
    case (Inr s2)
    with "1.prems"(1) have "s' = s2"
      by (simp add: mkdir_created)
    with Inr "1.prems"(2) show ?thesis
      by (simp add: well_formed_os_mkdir)
  next
    case (Inl e)
    show ?thesis
    proof (cases "e = FileNotFoundError")
      case False
      with Inl "1.prems" show ?thesis
        by (auto simp: mkdir_other_error split: if_splits)
    next
      case True
      with Inl have fnf: "os_mkdir p s = Inl FileNotFoundError" by simp
      from "1.prems"(1) have go: "\<not> (\<not> parents \<or> parent p = p)"
        by (auto simp: mkdir_missing_parent [OF fnf] split: if_splits)
      from "1.prems"(1) go obtain s1 where
        up: "pathlib_mkdir (parent p) True True s = Inr s1" and
        self: "pathlib_mkdir p False exist_ok s1 = Inr s'"
        by (auto simp: mkdir_missing_parent [OF fnf] split: if_splits sum.splits)
      from "1.IH"(1) [OF Inl True go up "1.prems"(2)] have "well_formed s1" .
      from "1.IH"(2) [OF Inl True go up self this] show ?thesis .
    qed
  qed
qed

lemma pathlib_mkdir_ancestors:
  assumes "pathlib_mkdir p parents exist_ok s = Inr s'" "well_formed s"
  shows "list_all (is_dir s') (ancestors p)"
proof -
  from assms have "well_formed s'" by (rule well_formed_pathlib_mkdir)
  moreover from assms(1) have "is_dir s' p" by (rule pathlib_mkdir_is_dir)
  ultimately show ?thesis
    by (auto simp: list_all_iff set_ancestors intro: well_formed_take)
qed

lemma pathlib_mkdir_succeeds:
  assumes "list_all (\<lambda>q. lookup s q \<noteq> Some File) (ancestors p)"
  shows "\<exists>s'. pathlib_mkdir p True True s = Inr s'"
proof (rule pathlib_mkdir_total, intro allI impI)
  fix n assume "n \<le> length p"
  then have "take n p \<in> set (ancestors p)" by (auto simp: set_ancestors)
  with assms show "lookup s (take n p) \<noteq> Some File" by (simp add: list_all_iff)
qed

lemma python_run_kept:
  fixes ps :: programs
  assumes mk: "pathlib_mkdir COMPILED_PY_DIR True True s = Inr s0"
    and step: "\<And>argv s. P s \<Longrightarrow> P (snd (snd (ps argv s)))"
    and init: "P s0"
  shows "\<exists>w. compile_python ps s = Inr w \<and> P (fs w) \<and> (\<forall>sn \<in> set (launch_states (trace w)). P sn)"
proof -
  let ?F1 = "glob PROTO_DIR ''.proto'' s0"
  from loop_kept [of P ps s0 "map python_protoc_args ?F1", OF step init]
  have l: "P (loop_fs ps (map python_protoc_args ?F1) s0)"
    "\<forall>sn \<in> set (launch_states (loop_events ps (map python_protoc_args ?F1) s0)). P sn"
    by simp_all
  from l(1) have "P (snd (snd (ps (protol_args (glob PROTO_DIR ''.proto''
      (loop_fs ps (map python_protoc_args ?F1) s0))) (loop_fs ps (map python_protoc_args ?F1) s0))))"
    by (rule step)
  with l show ?thesis
    by (simp add: compile_python_run [OF mk])
qed

lemma typescript_run_kept:
  fixes ps :: programs
  assumes mk: "pathlib_mkdir COMPILED_TS_DIR True True s = Inr s0"
    and step: "\<And>argv s. P s \<Longrightarrow> P (snd (snd (ps argv s)))"
    and init: "P s0"
  shows "\<exists>w. compile_typescript ps s = Inr w \<and> P (fs w) \<and> (\<forall>sn \<in> set (launch_states (trace w)). P sn)"
proof -
  let ?F1 = "glob PROTO_DIR ''.proto'' s0"
  from loop_kept [of P ps s0 "map typescript_protoc_args ?F1", OF step init]
  show ?thesis
    by (simp add: compile_typescript_run [OF mk])
qed

lemma keeps_step: "keeps ps p n \<Longrightarrow> lookup s p = Some n \<Longrightarrow> lookup (snd (snd (ps argv s))) p = Some n"
  by (simp add: keeps_def)

text \<open>
  C5. Directory creation with \<open>parents=True, exist_ok=True\<close> succeeds whenever no
  component of the path is an existing non-directory; when it succeeds the directory exists
  and, in a well-formed filesystem, so do all its parents; and when the directory already
  exists the call returns the filesystem unchanged instead of raising. Hence a run of either
  pipeline returns with its output directory in place, whatever the proto directory holds,
  provided the external programs do not remove that directory.
\<close>

theorem output_directory_exists:
  fixes ps :: programs
  shows
    "(list_all (\<lambda>q. lookup s q \<noteq> Some File) (ancestors COMPILED_PY_DIR)
        \<and> keeps ps COMPILED_PY_DIR Dir \<longrightarrow>
        (\<exists>w. compile_python ps s = Inr w \<and> is_dir (fs w) COMPILED_PY_DIR))
     \<and> (list_all (\<lambda>q. lookup s q \<noteq> Some File) (ancestors COMPILED_TS_DIR)
        \<and> keeps ps COMPILED_TS_DIR Dir \<longrightarrow>
        (\<exists>w. compile_typescript ps s = Inr w \<and> is_dir (fs w) COMPILED_TS_DIR))
     \<and> (compile_python ps s = Inr w \<and> keeps ps COMPILED_PY_DIR Dir \<longrightarrow>
          is_dir (fs w) COMPILED_PY_DIR)
     \<and> (compile_typescript ps s = Inr w' \<and> keeps ps COMPILED_TS_DIR Dir \<longrightarrow>
          is_dir (fs w') COMPILED_TS_DIR)
     \<and> (list_all (\<lambda>q. lookup s q \<noteq> Some File) (ancestors p) \<longrightarrow>
          (\<exists>s'. pathlib_mkdir p True True s = Inr s'))
     \<and> (pathlib_mkdir p True True s = Inr s' \<longrightarrow>
          is_dir s' p \<and> (well_formed s \<longrightarrow> list_all (is_dir s') (ancestors p)))
     \<and> (is_dir s p \<longrightarrow> pathlib_mkdir p True True s = Inr s)"
proof -
  have py: "\<exists>w. compile_python ps s = Inr w \<and> is_dir (fs w) COMPILED_PY_DIR"
    if mk: "pathlib_mkdir COMPILED_PY_DIR True True s = Inr s0"
      and k: "keeps ps COMPILED_PY_DIR Dir" for s0
  proof -
    from mk have "is_dir s0 COMPILED_PY_DIR" by (rule pathlib_mkdir_is_dir)
    with python_run_kept [OF mk, of "\<lambda>s. is_dir s COMPILED_PY_DIR" ps] keeps_step [OF k]
    show ?thesis by (auto simp: is_dir_def)
  qed
  have ts: "\<exists>w. compile_typescript ps s = Inr w \<and> is_dir (fs w) COMPILED_TS_DIR"
    if mk: "pathlib_mkdir COMPILED_TS_DIR True True s = Inr s0"
      and k: "keeps ps COMPILED_TS_DIR Dir" for s0
  proof -
    from mk have "is_dir s0 COMPILED_TS_DIR" by (rule pathlib_mkdir_is_dir)
    with typescript_run_kept [OF mk, of "\<lambda>s. is_dir s COMPILED_TS_DIR" ps] keeps_step [OF k]
    show ?thesis by (auto simp: is_dir_def)
  qed
  have 1: "list_all (\<lambda>q. lookup s q \<noteq> Some File) (ancestors COMPILED_PY_DIR)
        \<and> keeps ps COMPILED_PY_DIR Dir \<longrightarrow>
        (\<exists>w. compile_python ps s = Inr w \<and> is_dir (fs w) COMPILED_PY_DIR)"
    using pathlib_mkdir_succeeds [of s COMPILED_PY_DIR] py by blast
  have 2: "list_all (\<lambda>q. lookup s q \<noteq> Some File) (ancestors COMPILED_TS_DIR)
        \<and> keeps ps COMPILED_TS_DIR Dir \<longrightarrow>
        (\<exists>w. compile_typescript ps s = Inr w \<and> is_dir (fs w) COMPILED_TS_DIR)"
    using pathlib_mkdir_succeeds [of s COMPILED_TS_DIR] ts by blast
  have 3: "compile_python ps s = Inr w \<and> keeps ps COMPILED_PY_DIR Dir \<longrightarrow>
          is_dir (fs w) COMPILED_PY_DIR"
    using compile_python_Inr [of ps s w] py by fastforce
  have 4: "compile_typescript ps s = Inr w' \<and> keeps ps COMPILED_TS_DIR Dir \<longrightarrow>
          is_dir (fs w') COMPILED_TS_DIR"
    using compile_typescript_Inr [of ps s w'] ts by fastforce
  have 5: "list_all (\<lambda>q. lookup s q \<noteq> Some File) (ancestors p) \<longrightarrow>
          (\<exists>s'. pathlib_mkdir p True True s = Inr s')"
    using pathlib_mkdir_succeeds [of s p] by blast
  have 6: "pathlib_mkdir p True True s = Inr s' \<longrightarrow>
          is_dir s' p \<and> (well_formed s \<longrightarrow> list_all (is_dir s') (ancestors p))"
    using pathlib_mkdir_is_dir [of p True True s s'] pathlib_mkdir_ancestors [of p True True s s']
    by blast
  have 7: "is_dir s p \<longrightarrow> pathlib_mkdir p True True s = Inr s"
    by (simp add: pathlib_mkdir_exists)
  from 1 2 3 4 5 6 7 show ?thesis by blast
qed

lemma keeps_failing [simp]: "keeps failing_programs p n"
  by (simp add: keeps_def failing_programs_def)

lemma example_no_file_python:
  "list_all (\<lambda>q. lookup example_fs q \<noteq> Some File) (ancestors COMPILED_PY_DIR)"
  by code_simp

lemma example_no_file_typescript:
  "list_all (\<lambda>q. lookup example_fs q \<noteq> Some File) (ancestors COMPILED_TS_DIR)"
  by code_simp

lemma example_well_formed: "well_formed example_fs"
  by code_simp

theorem output_directory_exists_witness:
  "list_all (\<lambda>q. lookup example_fs q \<noteq> Some File) (ancestors COMPILED_PY_DIR)
   \<and> list_all (\<lambda>q. lookup example_fs q \<noteq> Some File) (ancestors COMPILED_TS_DIR)
   \<and> keeps failing_programs COMPILED_PY_DIR Dir
   \<and> keeps failing_programs COMPILED_TS_DIR Dir
   \<and> (\<exists>w. compile_python failing_programs example_fs = Inr w \<and> is_dir (fs w) COMPILED_PY_DIR)
   \<and> (\<exists>w. compile_typescript failing_programs example_fs = Inr w
         \<and> is_dir (fs w) COMPILED_TS_DIR)
   \<and> well_formed example_fs
   \<and> pathlib_mkdir COMPILED_PY_DIR True True example_fs = Inr (example_fs @ example_py_dirs)
   \<and> list_all (is_dir (example_fs @ example_py_dirs)) (ancestors COMPILED_PY_DIR)
   \<and> is_dir (example_fs @ example_py_dirs) COMPILED_PY_DIR
   \<and> pathlib_mkdir COMPILED_PY_DIR True True (example_fs @ example_py_dirs)
       = Inr (example_fs @ example_py_dirs)"
proof -
  note first = output_directory_exists
    [where ps = failing_programs and s = example_fs and p = COMPILED_PY_DIR
       and s' = "example_fs @ example_py_dirs"]
  from first example_no_file_python obtain w where
    w: "compile_python failing_programs example_fs = Inr w" by auto
  from first example_no_file_typescript obtain w' where
    w': "compile_typescript failing_programs example_fs = Inr w'" by auto
  note runs = output_directory_exists
    [where ps = failing_programs and s = example_fs and w = w and w' = w'
       and p = COMPILED_PY_DIR and s' = "example_fs @ example_py_dirs"]
  note again = output_directory_exists
    [where ps = failing_programs and s = "example_fs @ example_py_dirs"
       and p = COMPILED_PY_DIR]
  from runs w have a: "is_dir (fs w) COMPILED_PY_DIR" by simp
  from runs w' have b: "is_dir (fs w') COMPILED_TS_DIR" by simp
  from runs example_mkdir_python example_well_formed
  have c: "is_dir (example_fs @ example_py_dirs) COMPILED_PY_DIR"
    "list_all (is_dir (example_fs @ example_py_dirs)) (ancestors COMPILED_PY_DIR)"
    by simp_all
  from again c(1) have d: "pathlib_mkdir COMPILED_PY_DIR True True (example_fs @ example_py_dirs)
       = Inr (example_fs @ example_py_dirs)" by simp
  from w a have "\<exists>w. compile_python failing_programs example_fs = Inr w
    \<and> is_dir (fs w) COMPILED_PY_DIR" by blast
  moreover from w' b have "\<exists>w. compile_typescript failing_programs example_fs = Inr w
    \<and> is_dir (fs w) COMPILED_TS_DIR" by blast
  ultimately show ?thesis
    using example_no_file_python example_no_file_typescript example_well_formed
      example_mkdir_python c d by simp
qed

lemma python_run_shape:
  fixes ps :: programs
  assumes "pathlib_mkdir COMPILED_PY_DIR True True s = Inr s0"
  shows "\<exists>w F2. compile_python ps s = Inr w
           \<and> enumerations (trace w) = [glob PROTO_DIR ''.proto'' s0, F2]
           \<and> invocations (trace w)
               = map python_protoc_args (glob PROTO_DIR ''.proto'' s0) @ [protol_args F2]"
  using compile_python_run [OF assms, of ps] by simp

lemma typescript_run_shape:
  fixes ps :: programs
  assumes "pathlib_mkdir COMPILED_TS_DIR True True s = Inr s0"
  shows "\<exists>w. compile_typescript ps s = Inr w
           \<and> enumerations (trace w) = [glob PROTO_DIR ''.proto'' s0]
           \<and> invocations (trace w) = map typescript_protoc_args (glob PROTO_DIR ''.proto'' s0)"
  using compile_typescript_run [OF assms, of ps] by simp

lemma loop_fs_failing [simp]: "loop_fs failing_programs argvs s = s"
  by (induction argvs) (simp_all add: failing_programs_def)

text \<open>
  C7. Running a pipeline a second time, on the filesystem that the first run left, raises
  no error: the directory creation of the second run finds the directory and returns the
  filesystem unchanged, and the run returns whatever else the filesystem holds, generated
  files of an earlier run included. When the second run enumerates the same proto files it
  issues the same commands, with the same output directory, so the compilers write the same
  files again. The external programs are assumed not to remove the output directory.
\<close>

theorem rerun_without_errors:
  fixes ps :: programs
  shows
    "(pathlib_mkdir COMPILED_PY_DIR True True s = Inr s0 \<and> keeps ps COMPILED_PY_DIR Dir \<longrightarrow>
        (\<exists>w1 w2. compile_python ps s = Inr w1
           \<and> pathlib_mkdir COMPILED_PY_DIR True True (fs w1) = Inr (fs w1)
           \<and> compile_python ps (fs w1) = Inr w2
           \<and> (enumerations (trace w2) = enumerations (trace w1) \<longrightarrow>
                invocations (trace w2) = invocations (trace w1))))
     \<and> (pathlib_mkdir COMPILED_TS_DIR True True s = Inr s0' \<and> keeps ps COMPILED_TS_DIR Dir \<longrightarrow>
        (\<exists>w1 w2. compile_typescript ps s = Inr w1
           \<and> pathlib_mkdir COMPILED_TS_DIR True True (fs w1) = Inr (fs w1)
           \<and> compile_typescript ps (fs w1) = Inr w2
           \<and> (enumerations (trace w2) = enumerations (trace w1) \<longrightarrow>
                invocations (trace w2) = invocations (trace w1))))
     \<and> (is_dir s COMPILED_PY_DIR \<longrightarrow> (\<exists>w. compile_python ps s = Inr w))
     \<and> (is_dir s COMPILED_TS_DIR \<longrightarrow> (\<exists>w. compile_typescript ps s = Inr w))"
proof (intro conjI impI)
  assume a: "pathlib_mkdir COMPILED_PY_DIR True True s = Inr s0 \<and> keeps ps COMPILED_PY_DIR Dir"
  then have mk: "pathlib_mkdir COMPILED_PY_DIR True True s = Inr s0"
    and k: "keeps ps COMPILED_PY_DIR Dir" by simp_all
  from python_run_shape [OF mk, of ps] obtain w1 F2 where
    w1: "compile_python ps s = Inr w1"
    "enumerations (trace w1) = [glob PROTO_DIR ''.proto'' s0, F2]"
    "invocations (trace w1)
       = map python_protoc_args (glob PROTO_DIR ''.proto'' s0) @ [protol_args F2]"
    by blast
  from mk have "is_dir s0 COMPILED_PY_DIR" by (rule pathlib_mkdir_is_dir)
  with python_run_kept [OF mk, of "\<lambda>s. is_dir s COMPILED_PY_DIR" ps] keeps_step [OF k] w1(1)
  have "is_dir (fs w1) COMPILED_PY_DIR" by (auto simp: is_dir_def)
  then have mk2: "pathlib_mkdir COMPILED_PY_DIR True True (fs w1) = Inr (fs w1)"
    by (rule pathlib_mkdir_exists)
  from python_run_shape [OF mk2, of ps] obtain w2 G2 where
    w2: "compile_python ps (fs w1) = Inr w2"
    "enumerations (trace w2) = [glob PROTO_DIR ''.proto'' (fs w1), G2]"
    "invocations (trace w2)
       = map python_protoc_args (glob PROTO_DIR ''.proto'' (fs w1)) @ [protol_args G2]"
    by blast
  from w1 w2 have "enumerations (trace w2) = enumerations (trace w1) \<longrightarrow>
    invocations (trace w2) = invocations (trace w1)" by simp
  with w1(1) mk2 w2(1)
  show "\<exists>w1 w2. compile_python ps s = Inr w1
           \<and> pathlib_mkdir COMPILED_PY_DIR True True (fs w1) = Inr (fs w1)
           \<and> compile_python ps (fs w1) = Inr w2
           \<and> (enumerations (trace w2) = enumerations (trace w1) \<longrightarrow>
                invocations (trace w2) = invocations (trace w1))"
    by blast
next
  assume a: "pathlib_mkdir COMPILED_TS_DIR True True s = Inr s0' \<and> keeps ps COMPILED_TS_DIR Dir"
  then have mk: "pathlib_mkdir COMPILED_TS_DIR True True s = Inr s0'"
    and k: "keeps ps COMPILED_TS_DIR Dir" by simp_all
  from typescript_run_shape [OF mk, of ps] obtain w1 where
    w1: "compile_typescript ps s = Inr w1"
    "enumerations (trace w1) = [glob PROTO_DIR ''.proto'' s0']"
    "invocations (trace w1) = map typescript_protoc_args (glob PROTO_DIR ''.proto'' s0')"
    by blast
  from mk have "is_dir s0' COMPILED_TS_DIR" by (rule pathlib_mkdir_is_dir)
  with typescript_run_kept [OF mk, of "\<lambda>s. is_dir s COMPILED_TS_DIR" ps] keeps_step [OF k] w1(1)
  have "is_dir (fs w1) COMPILED_TS_DIR" by (auto simp: is_dir_def)
  then have mk2: "pathlib_mkdir COMPILED_TS_DIR True True (fs w1) = Inr (fs w1)"
    by (rule pathlib_mkdir_exists)
  from typescript_run_shape [OF mk2, of ps] obtain w2 where
    w2: "compile_typescript ps (fs w1) = Inr w2"
    "enumerations (trace w2) = [glob PROTO_DIR ''.proto'' (fs w1)]"
    "invocations (trace w2) = map typescript_protoc_args (glob PROTO_DIR ''.proto'' (fs w1))"
    by blast
  from w1 w2 have "enumerations (trace w2) = enumerations (trace w1) \<longrightarrow>
    invocations (trace w2) = invocations (trace w1)" by simp
  with w1(1) mk2 w2(1)
  show "\<exists>w1 w2. compile_typescript ps s = Inr w1
           \<and> pathlib_mkdir COMPILED_TS_DIR True True (fs w1) = Inr (fs w1)
           \<and> compile_typescript ps (fs w1) = Inr w2
           \<and> (enumerations (trace w2) = enumerations (trace w1) \<longrightarrow>
                invocations (trace w2) = invocations (trace w1))"
    by blast
next
  assume "is_dir s COMPILED_PY_DIR"
  then have "pathlib_mkdir COMPILED_PY_DIR True True s = Inr s" by (rule pathlib_mkdir_exists)
  from python_run_shape [OF this, of ps] show "\<exists>w. compile_python ps s = Inr w" by blast
next
  assume "is_dir s COMPILED_TS_DIR"
  then have "pathlib_mkdir COMPILED_TS_DIR True True s = Inr s" by (rule pathlib_mkdir_exists)
  from typescript_run_shape [OF this, of ps] show "\<exists>w. compile_typescript ps s = Inr w" by blast
qed


lemma example_is_dir_python: "is_dir (example_fs @ example_py_dirs) COMPILED_PY_DIR"
  by code_simp

lemma example_is_dir_typescript: "is_dir (example_fs @ example_ts_dirs) COMPILED_TS_DIR"
  by code_simp

lemma failing_effect [simp]: "snd (snd (failing_programs argv s)) = s"
  by (simp add: failing_programs_def)

theorem rerun_without_errors_witness:
  "pathlib_mkdir COMPILED_PY_DIR True True example_fs = Inr (example_fs @ example_py_dirs)
   \<and> keeps failing_programs COMPILED_PY_DIR Dir
   \<and> (\<exists>w1 w2. compile_python failing_programs example_fs = Inr w1
         \<and> compile_python failing_programs (fs w1) = Inr w2
         \<and> enumerations (trace w2) = enumerations (trace w1)
         \<and> invocations (trace w2) = invocations (trace w1))
   \<and> pathlib_mkdir COMPILED_TS_DIR True True example_fs = Inr (example_fs @ example_ts_dirs)
   \<and> keeps failing_programs COMPILED_TS_DIR Dir
   \<and> (\<exists>w1 w2. compile_typescript failing_programs example_fs = Inr w1
         \<and> compile_typescript failing_programs (fs w1) = Inr w2
         \<and> enumerations (trace w2) = enumerations (trace w1)
         \<and> invocations (trace w2) = invocations (trace w1))
   \<and> is_dir (example_fs @ example_py_dirs) COMPILED_PY_DIR
   \<and> (\<exists>w. compile_python failing_programs (example_fs @ example_py_dirs) = Inr w)
   \<and> is_dir (example_fs @ example_ts_dirs) COMPILED_TS_DIR
   \<and> (\<exists>w. compile_typescript failing_programs (example_fs @ example_ts_dirs) = Inr w)"
proof -
  note first = rerun_without_errors
    [where ps = failing_programs and s = example_fs
       and ?s0.0 = "example_fs @ example_py_dirs" and s0' = "example_fs @ example_ts_dirs"]
  from first example_mkdir_python obtain w1 w2 where py:
    "compile_python failing_programs example_fs = Inr w1"
    "compile_python failing_programs (fs w1) = Inr w2"
    "enumerations (trace w2) = enumerations (trace w1) \<longrightarrow>
       invocations (trace w2) = invocations (trace w1)"
    by auto
  from py(1) have f1: "fs w1 = example_fs @ example_py_dirs"
    and e1: "enumerations (trace w1)
               = [glob PROTO_DIR ''.proto'' (example_fs @ example_py_dirs),
                  glob PROTO_DIR ''.proto'' (example_fs @ example_py_dirs)]"
    by (auto simp: compile_python_run [OF example_mkdir_python])
  from py(2) f1 have "enumerations (trace w2)
               = [glob PROTO_DIR ''.proto'' (example_fs @ example_py_dirs),
                  glob PROTO_DIR ''.proto'' (example_fs @ example_py_dirs)]"
    by (auto simp: compile_python_run [OF pathlib_mkdir_exists [OF example_is_dir_python]])
  with e1 py(3) have py_same: "enumerations (trace w2) = enumerations (trace w1)"
    "invocations (trace w2) = invocations (trace w1)" by simp_all
  from first example_mkdir_typescript obtain v1 v2 where ts:
    "compile_typescript failing_programs example_fs = Inr v1"
    "compile_typescript failing_programs (fs v1) = Inr v2"
    "enumerations (trace v2) = enumerations (trace v1) \<longrightarrow>
       invocations (trace v2) = invocations (trace v1)"
    by auto
  from ts(1) have g1: "fs v1 = example_fs @ example_ts_dirs"
    and h1: "enumerations (trace v1) = [glob PROTO_DIR ''.proto'' (example_fs @ example_ts_dirs)]"
    by (auto simp: compile_typescript_run [OF example_mkdir_typescript])
  from ts(2) g1 have "enumerations (trace v2)
      = [glob PROTO_DIR ''.proto'' (example_fs @ example_ts_dirs)]"
    by (auto simp: compile_typescript_run [OF pathlib_mkdir_exists [OF example_is_dir_typescript]])
  with h1 ts(3) have ts_same: "enumerations (trace v2) = enumerations (trace v1)"
    "invocations (trace v2) = invocations (trace v1)" by simp_all
  from rerun_without_errors
    [where ps = failing_programs and s = "example_fs @ example_py_dirs"] example_is_dir_python
  have again_py: "\<exists>w. compile_python failing_programs (example_fs @ example_py_dirs) = Inr w"
    by simp
  from rerun_without_errors
    [where ps = failing_programs and s = "example_fs @ example_ts_dirs"] example_is_dir_typescript
  have again_ts: "\<exists>w. compile_typescript failing_programs (example_fs @ example_ts_dirs) = Inr w"
    by simp
  from py(1,2) py_same have "\<exists>w1 w2. compile_python failing_programs example_fs = Inr w1
         \<and> compile_python failing_programs (fs w1) = Inr w2
         \<and> enumerations (trace w2) = enumerations (trace w1)
         \<and> invocations (trace w2) = invocations (trace w1)" by blast
  moreover from ts(1,2) ts_same have "\<exists>w1 w2. compile_typescript failing_programs example_fs = Inr w1
         \<and> compile_typescript failing_programs (fs w1) = Inr w2
         \<and> enumerations (trace w2) = enumerations (trace w1)
         \<and> invocations (trace w2) = invocations (trace w1)" by blast
  ultimately show ?thesis
    using example_mkdir_python example_mkdir_typescript example_is_dir_python
      example_is_dir_typescript again_py again_ts by simp
qed

lemma first_launch:
  "launch_states (loop_events ps argvs s) = [] \<or> hd (launch_states (loop_events ps argvs s)) = s"
  by (cases argvs) simp_all

lemma first_launch_then:
  "hd (launch_states (loop_events ps argvs s) @ [loop_fs ps argvs s]) = s"
  by (cases argvs) simp_all

lemma pathlib_mkdir_keeps:
  assumes "pathlib_mkdir p parents exist_ok s = Inr s'" "lookup s q = Some n"
  shows "lookup s' q = Some n"
proof -
  from pathlib_mkdir_extends [OF assms(1)] obtain ext where "s' = s @ ext" by blast
  with assms(2) show ?thesis by (simp add: lookup_append)
qed

text \<open>
  C8. In a run of either pipeline the output directory exists before any subprocess is
  started: the first subprocess is launched on the filesystem that the directory creation
  returned, in which the directory exists, and the directory is there at every later launch
  unless an external program removed it. The script itself removes nothing: the directory
  creation keeps every entry of the filesystem, and an entry that the external programs
  leave in place (the output directory, a proto source file) is there at every launch and
  at the end of the run.
\<close>

theorem directory_first_nothing_deleted:
  fixes ps :: programs
  shows
    "(pathlib_mkdir COMPILED_PY_DIR True True s = Inr s0 \<longrightarrow>
        (\<exists>w. compile_python ps s = Inr w
           \<and> is_dir s0 COMPILED_PY_DIR
           \<and> launch_states (trace w) \<noteq> [] \<and> hd (launch_states (trace w)) = s0
           \<and> (keeps ps COMPILED_PY_DIR Dir \<longrightarrow>
                (\<forall>sn \<in> set (launch_states (trace w)). is_dir sn COMPILED_PY_DIR))
           \<and> (lookup s p = Some n \<longrightarrow> lookup s0 p = Some n)
           \<and> (lookup s p = Some n \<and> keeps ps p n \<longrightarrow>
                lookup (fs w) p = Some n
                \<and> (\<forall>sn \<in> set (launch_states (trace w)). lookup sn p = Some n))))
     \<and> (pathlib_mkdir COMPILED_TS_DIR True True s = Inr s0' \<longrightarrow>
        (\<exists>w. compile_typescript ps s = Inr w
           \<and> is_dir s0' COMPILED_TS_DIR
           \<and> (launch_states (trace w) = [] \<or> hd (launch_states (trace w)) = s0')
           \<and> (keeps ps COMPILED_TS_DIR Dir \<longrightarrow>
                (\<forall>sn \<in> set (launch_states (trace w)). is_dir sn COMPILED_TS_DIR))
           \<and> (lookup s p = Some n \<longrightarrow> lookup s0' p = Some n)
           \<and> (lookup s p = Some n \<and> keeps ps p n \<longrightarrow>
                lookup (fs w) p = Some n
                \<and> (\<forall>sn \<in> set (launch_states (trace w)). lookup sn p = Some n))))"
proof (intro conjI impI)
  assume mk: "pathlib_mkdir COMPILED_PY_DIR True True s = Inr s0"
  let ?F1 = "glob PROTO_DIR ''.proto'' s0"
  obtain w where w: "compile_python ps s = Inr w"
    and first: "launch_states (trace w) \<noteq> []" "hd (launch_states (trace w)) = s0"
    using compile_python_run [OF mk, of ps]
      first_launch_then [of ps "map python_protoc_args ?F1" s0]
    by simp
  from mk have dir: "is_dir s0 COMPILED_PY_DIR" by (rule pathlib_mkdir_is_dir)
  have a: "\<forall>sn \<in> set (launch_states (trace w)). is_dir sn COMPILED_PY_DIR"
    if k: "keeps ps COMPILED_PY_DIR Dir"
    using python_run_kept [OF mk, of "\<lambda>s. is_dir s COMPILED_PY_DIR" ps] keeps_step [OF k] dir w
    by (auto simp: is_dir_def)
  have b: "lookup s0 p = Some n" if "lookup s p = Some n"
    using pathlib_mkdir_keeps [OF mk that] .
  have c: "lookup (fs w) p = Some n \<and> (\<forall>sn \<in> set (launch_states (trace w)). lookup sn p = Some n)"
    if "lookup s p = Some n \<and> keeps ps p n"
  proof -
    from that have k: "keeps ps p n" and "lookup s0 p = Some n" by (simp_all add: b)
    with python_run_kept [OF mk, of "\<lambda>s. lookup s p = Some n" ps] keeps_step [OF k] w
    show ?thesis by auto
  qed
  from w first dir a b c
  show "\<exists>w. compile_python ps s = Inr w
           \<and> is_dir s0 COMPILED_PY_DIR
           \<and> launch_states (trace w) \<noteq> [] \<and> hd (launch_states (trace w)) = s0
           \<and> (keeps ps COMPILED_PY_DIR Dir \<longrightarrow>
                (\<forall>sn \<in> set (launch_states (trace w)). is_dir sn COMPILED_PY_DIR))
           \<and> (lookup s p = Some n \<longrightarrow> lookup s0 p = Some n)
           \<and> (lookup s p = Some n \<and> keeps ps p n \<longrightarrow>
                lookup (fs w) p = Some n
                \<and> (\<forall>sn \<in> set (launch_states (trace w)). lookup sn p = Some n))"
    by blast
next
  assume mk: "pathlib_mkdir COMPILED_TS_DIR True True s = Inr s0'"
  let ?F1 = "glob PROTO_DIR ''.proto'' s0'"
  obtain w where w: "compile_typescript ps s = Inr w"
    and first: "launch_states (trace w) = [] \<or> hd (launch_states (trace w)) = s0'"
    using compile_typescript_run [OF mk, of ps]
      first_launch [of ps "map typescript_protoc_args ?F1" s0']
    by simp
  from mk have dir: "is_dir s0' COMPILED_TS_DIR" by (rule pathlib_mkdir_is_dir)
  have a: "\<forall>sn \<in> set (launch_states (trace w)). is_dir sn COMPILED_TS_DIR"
    if k: "keeps ps COMPILED_TS_DIR Dir"
    using typescript_run_kept [OF mk, of "\<lambda>s. is_dir s COMPILED_TS_DIR" ps] keeps_step [OF k] dir w
    by (auto simp: is_dir_def)
  have b: "lookup s0' p = Some n" if "lookup s p = Some n"
    using pathlib_mkdir_keeps [OF mk that] .
  have c: "lookup (fs w) p = Some n \<and> (\<forall>sn \<in> set (launch_states (trace w)). lookup sn p = Some n)"
    if "lookup s p = Some n \<and> keeps ps p n"
  proof -
    from that have k: "keeps ps p n" and "lookup s0' p = Some n" by (simp_all add: b)
    with typescript_run_kept [OF mk, of "\<lambda>s. lookup s p = Some n" ps] keeps_step [OF k] w
    show ?thesis by auto
  qed
  from w first dir a b c
  show "\<exists>w. compile_typescript ps s = Inr w
           \<and> is_dir s0' COMPILED_TS_DIR
           \<and> (launch_states (trace w) = [] \<or> hd (launch_states (trace w)) = s0')
           \<and> (keeps ps COMPILED_TS_DIR Dir \<longrightarrow>
                (\<forall>sn \<in> set (launch_states (trace w)). is_dir sn COMPILED_TS_DIR))
           \<and> (lookup s p = Some n \<longrightarrow> lookup s0' p = Some n)
           \<and> (lookup s p = Some n \<and> keeps ps p n \<longrightarrow>
                lookup (fs w) p = Some n
                \<and> (\<forall>sn \<in> set (launch_states (trace w)). lookup sn p = Some n))"
    by blast
qed

lemma example_lookup_proto: "lookup example_fs [''proto'', ''a.proto''] = Some File"
  by code_simp

theorem directory_first_nothing_deleted_witness:
  "pathlib_mkdir COMPILED_PY_DIR True True example_fs = Inr (example_fs @ example_py_dirs)
   \<and> pathlib_mkdir COMPILED_TS_DIR True True example_fs = Inr (example_fs @ example_ts_dirs)
   \<and> keeps failing_programs COMPILED_PY_DIR Dir
   \<and> keeps failing_programs COMPILED_TS_DIR Dir
   \<and> lookup example_fs [''proto'', ''a.proto''] = Some File
   \<and> keeps failing_programs [''proto'', ''a.proto''] File
   \<and> (\<exists>w. compile_python failing_programs example_fs = Inr w
         \<and> hd (launch_states (trace w)) = example_fs @ example_py_dirs
         \<and> (\<forall>sn \<in> set (launch_states (trace w)). is_dir sn COMPILED_PY_DIR)
         \<and> lookup (fs w) [''proto'', ''a.proto''] = Some File
         \<and> (\<forall>sn \<in> set (launch_states (trace w)).
               lookup sn [''proto'', ''a.proto''] = Some File))
   \<and> (\<exists>w. compile_typescript failing_programs example_fs = Inr w
         \<and> (\<forall>sn \<in> set (launch_states (trace w)). is_dir sn COMPILED_TS_DIR)
         \<and> lookup (fs w) [''proto'', ''a.proto''] = Some File
         \<and> (\<forall>sn \<in> set (launch_states (trace w)).
               lookup sn [''proto'', ''a.proto''] = Some File))"
  using directory_first_nothing_deleted
          [where ps = failing_programs and s = example_fs
             and ?s0.0 = "example_fs @ example_py_dirs" and s0' = "example_fs @ example_ts_dirs"
             and p = "[''proto'', ''a.proto'']" and n = File]
        example_mkdir_python example_mkdir_typescript example_lookup_proto
  by auto

lemma last_python_protoc_args [simp]: "last (python_protoc_args f) = path_str f"
  by (simp add: python_protoc_args_def)

lemma drop_protol_args [simp]: "drop 6 (protol_args F) = map path_str F"
  by (simp add: protol_args_def)

lemma quiet_effect [simp]: "snd (snd (quiet_programs argv s)) = s"
  by (simp add: quiet_programs_def)

lemma loop_fs_quiet [simp]: "loop_fs quiet_programs argvs s = s"
  by (induction argvs) simp_all

text \<open>
  C9. The Python pipeline enumerates the proto directory twice, each time from the
  filesystem of that moment: once when the compilation loop starts and once when the
  argument list of the import fixer is built. The files compiled are those of the first
  enumeration and the files handed to the import fixer are those of the second. When the
  filesystem is the same at both enumerations, the import fixer is handed exactly the files
  that were compiled, in the same order.
\<close>

theorem fixer_files_are_compiled_files:
  fixes ps :: programs
  shows
    "pathlib_mkdir COMPILED_PY_DIR True True s = Inr s0 \<Longrightarrow>
       \<exists>w F1 F2 sA sB fixer.
         compile_python ps s = Inr w
         \<and> enumerations (trace w) = [F1, F2]
         \<and> listing_states (trace w) = [sA, sB]
         \<and> F1 = glob PROTO_DIR ''.proto'' sA
         \<and> F2 = glob PROTO_DIR ''.proto'' sB
         \<and> map last (filter is_compiler (invocations (trace w))) = map path_str F1
         \<and> filter is_import_fixer (invocations (trace w)) = [fixer]
         \<and> drop 6 fixer = map path_str F2
         \<and> (sB = sA \<longrightarrow>
              drop 6 fixer = map last (filter is_compiler (invocations (trace w)))
              \<and> set (drop 6 fixer) = set (map last (filter is_compiler (invocations (trace w)))))"
proof -
  assume mk: "pathlib_mkdir COMPILED_PY_DIR True True s = Inr s0"
  let ?F1 = "glob PROTO_DIR ''.proto'' s0"
  let ?s1 = "loop_fs ps (map python_protoc_args ?F1) s0"
  let ?F2 = "glob PROTO_DIR ''.proto'' ?s1"
  obtain w where w: "compile_python ps s = Inr w"
    and e: "enumerations (trace w) = [?F1, ?F2]"
    and l: "listing_states (trace w) = [s0, ?s1]"
    and c: "filter is_compiler (invocations (trace w)) = map python_protoc_args ?F1"
    and f: "filter is_import_fixer (invocations (trace w)) = [protol_args ?F2]"
    using compile_python_run [OF mk, of ps] by simp
  from c have m: "map last (filter is_compiler (invocations (trace w))) = map path_str ?F1"
    by (simp add: comp_def)
  have "?s1 = s0 \<longrightarrow>
          drop 6 (protol_args ?F2) = map last (filter is_compiler (invocations (trace w)))
          \<and> set (drop 6 (protol_args ?F2))
              = set (map last (filter is_compiler (invocations (trace w))))"
  proof
    assume same: "?s1 = s0"
    have "drop 6 (protol_args ?F2) = map path_str ?F2" by simp
    also from same have "\<dots> = map path_str ?F1" by simp
    finally have "drop 6 (protol_args ?F2) = map last (filter is_compiler (invocations (trace w)))"
      using m by simp
    then show "drop 6 (protol_args ?F2) = map last (filter is_compiler (invocations (trace w)))
          \<and> set (drop 6 (protol_args ?F2))
              = set (map last (filter is_compiler (invocations (trace w))))"
      by simp
  qed
  with w e l m f show ?thesis
    by (intro exI [of _ w] exI [of _ ?F1] exI [of _ ?F2] exI [of _ s0] exI [of _ ?s1]
        exI [of _ "protol_args ?F2"]) simp
qed

theorem fixer_files_are_compiled_files_witness:
  "pathlib_mkdir COMPILED_PY_DIR True True example_fs = Inr (example_fs @ example_py_dirs)
   \<and> (\<exists>w sA fixer.
         compile_python failing_programs example_fs = Inr w
         \<and> listing_states (trace w) = [sA, sA]
         \<and> filter is_import_fixer (invocations (trace w)) = [fixer]
         \<and> drop 6 fixer = [''proto/a.proto'', ''proto/b.proto'']
         \<and> map last (filter is_compiler (invocations (trace w)))
             = [''proto/a.proto'', ''proto/b.proto''])"
proof -
  from fixer_files_are_compiled_files [OF example_mkdir_python, of failing_programs]
  obtain w F1 F2 sA sB fixer where r:
    "compile_python failing_programs example_fs = Inr w"
    "listing_states (trace w) = [sA, sB]"
    "F1 = glob PROTO_DIR ''.proto'' sA"
    "map last (filter is_compiler (invocations (trace w))) = map path_str F1"
    "filter is_import_fixer (invocations (trace w)) = [fixer]"
    "sB = sA \<longrightarrow> drop 6 fixer = map last (filter is_compiler (invocations (trace w)))"
    by blast
  from r(1) have "listing_states (trace w) = [example_fs @ example_py_dirs, example_fs @ example_py_dirs]"
    by (auto simp: compile_python_run [OF example_mkdir_python])
  with r(2) have "[sA, sB] = [example_fs @ example_py_dirs, example_fs @ example_py_dirs]"
    by (rule trans [OF sym])
  then have "sA = example_fs @ example_py_dirs \<and> sB = example_fs @ example_py_dirs"
    by (simp only: list.inject)
  then have s: "sA = example_fs @ example_py_dirs" "sB = sA" by auto
  from r(3,4) s(1) have "map last (filter is_compiler (invocations (trace w)))
      = [''proto/a.proto'', ''proto/b.proto'']"
    by (simp add: example_glob_python path_str_def)
  moreover from r(6) s(2) have "drop 6 fixer = map last (filter is_compiler (invocations (trace w)))"
    by simp
  ultimately show ?thesis
    using r(1,2,5) s(2) example_mkdir_python by auto
qed

lemma python_run_invocations:
  fixes ps :: programs
  assumes "compile_python ps s = Inr w"
  shows "\<exists>F1 F2. enumerations (trace w) = [F1, F2]
           \<and> invocations (trace w) = map python_protoc_args F1 @ [protol_args F2]"
proof -
  from compile_python_Inr [OF assms] obtain s0 where
    "pathlib_mkdir COMPILED_PY_DIR True True s = Inr s0" ..
  from python_run_shape [OF this, of ps] assms show ?thesis by auto
qed

lemma typescript_run_invocations:
  fixes ps :: programs
  assumes "compile_typescript ps s = Inr w"
  shows "\<exists>F1. enumerations (trace w) = [F1]
           \<and> invocations (trace w) = map typescript_protoc_args F1"
proof -
  from compile_typescript_Inr [OF assms] obtain s0 where
    "pathlib_mkdir COMPILED_TS_DIR True True s = Inr s0" ..
  from typescript_run_shape [OF this, of ps] assms show ?thesis by auto
qed

text \<open>
  C10. The command lines depend on the enumerated files only. For each proto file both
  pipelines build an argument vector that is a fixed list of compiler flags followed by the
  path of the file; the subprocesses of a run are the argument vectors of the files of its
  (first) enumeration, in the order of the enumeration, in the Python pipeline followed by
  the import fixer with the files of the second enumeration; and two runs of a pipeline with
  the same enumerations start the same subprocesses in the same order, whatever the
  programs do and whatever else the filesystems hold.
\<close>

theorem command_lines_from_enumeration:
  fixes ps ps' :: programs
  shows
    "python_protoc_args f =
        [''python'', ''-m'', ''grpc_tools.protoc'', ''--proto_path=proto'',
         ''--python_out=backend/packages/proto/proto/compiled'',
         ''--grpc_python_out=backend/packages/proto/proto/compiled'',
         ''--pyi_out=backend/packages/proto/proto/compiled''] @ [path_str f]
     \<and> typescript_protoc_args f =
        [''protoc'', ''--proto_path=proto'', ''--plugin=node_modules/.bin/protoc-gen-ts_proto'',
         ''--ts_proto_out=packages/proto/src/lib/gen'',
         ''--ts_proto_opt=importSuffix=.js''] @ [path_str f]
     \<and> (compile_python ps s = Inr w \<longrightarrow>
          invocations (trace w)
            = map python_protoc_args (hd (enumerations (trace w)))
              @ [protol_args (last (enumerations (trace w)))])
     \<and> (compile_typescript ps s = Inr v \<longrightarrow>
          invocations (trace v) = map typescript_protoc_args (hd (enumerations (trace v))))
     \<and> (compile_python ps s = Inr w \<and> compile_python ps' s' = Inr w'
          \<and> enumerations (trace w) = enumerations (trace w') \<longrightarrow>
          invocations (trace w) = invocations (trace w'))
     \<and> (compile_typescript ps s = Inr v \<and> compile_typescript ps' s' = Inr v'
          \<and> enumerations (trace v) = enumerations (trace v') \<longrightarrow>
          invocations (trace v) = invocations (trace v'))"
proof (intro conjI impI)
  show "python_protoc_args f =
        [''python'', ''-m'', ''grpc_tools.protoc'', ''--proto_path=proto'',
         ''--python_out=backend/packages/proto/proto/compiled'',
         ''--grpc_python_out=backend/packages/proto/proto/compiled'',
         ''--pyi_out=backend/packages/proto/proto/compiled''] @ [path_str f]"
    by (simp add: python_protoc_args_def)
  show "typescript_protoc_args f =
        [''protoc'', ''--proto_path=proto'', ''--plugin=node_modules/.bin/protoc-gen-ts_proto'',
         ''--ts_proto_out=packages/proto/src/lib/gen'',
         ''--ts_proto_opt=importSuffix=.js''] @ [path_str f]"
    by (simp add: typescript_protoc_args_def)
next
  assume "compile_python ps s = Inr w"
  from python_run_invocations [OF this]
  show "invocations (trace w)
            = map python_protoc_args (hd (enumerations (trace w)))
              @ [protol_args (last (enumerations (trace w)))]"
    by auto
next
  assume "compile_typescript ps s = Inr v"
  from typescript_run_invocations [OF this]
  show "invocations (trace v) = map typescript_protoc_args (hd (enumerations (trace v)))"
    by auto
next
  assume a: "compile_python ps s = Inr w \<and> compile_python ps' s' = Inr w'
          \<and> enumerations (trace w) = enumerations (trace w')"
  then have "compile_python ps s = Inr w" "compile_python ps' s' = Inr w'" by simp_all
  from python_run_invocations [OF this(1)] python_run_invocations [OF this(2)] a
  show "invocations (trace w) = invocations (trace w')"
    by auto
next
  assume a: "compile_typescript ps s = Inr v \<and> compile_typescript ps' s' = Inr v'
          \<and> enumerations (trace v) = enumerations (trace v')"
  then have "compile_typescript ps s = Inr v" "compile_typescript ps' s' = Inr v'" by simp_all
  from typescript_run_invocations [OF this(1)] typescript_run_invocations [OF this(2)] a
  show "invocations (trace v) = invocations (trace v')"
    by auto
qed

theorem command_lines_from_enumeration_witness:
  "\<exists>w w' v v'.
     compile_python failing_programs example_fs = Inr w
     \<and> compile_python quiet_programs (example_fs @ example_py_dirs) = Inr w'
     \<and> enumerations (trace w) = enumerations (trace w')
     \<and> invocations (trace w) = invocations (trace w')
     \<and> length (invocations (trace w)) = 3
     \<and> compile_typescript failing_programs example_fs = Inr v
     \<and> compile_typescript quiet_programs example_fs = Inr v'
     \<and> enumerations (trace v) = enumerations (trace v')
     \<and> invocations (trace v) = invocations (trace v')
     \<and> length (invocations (trace v)) = 2"
proof -
  let ?F = "[[''proto'', ''a.proto''], [''proto'', ''b.proto'']]"
  obtain w where w: "compile_python failing_programs example_fs = Inr w"
    "enumerations (trace w) = [?F, ?F]"
    using compile_python_run [OF example_mkdir_python, of failing_programs]
    by (simp add: example_glob_python)
  obtain w' where w': "compile_python quiet_programs (example_fs @ example_py_dirs) = Inr w'"
    "enumerations (trace w') = [?F, ?F]"
    using compile_python_run [OF pathlib_mkdir_exists [OF example_is_dir_python], of quiet_programs]
    by (simp add: example_glob_python)
  obtain v where v: "compile_typescript failing_programs example_fs = Inr v"
    "enumerations (trace v) = [?F]"
    using compile_typescript_run [OF example_mkdir_typescript, of failing_programs]
    by (simp add: example_glob_typescript)
  obtain v' where v': "compile_typescript quiet_programs example_fs = Inr v'"
    "enumerations (trace v') = [?F]"
    using compile_typescript_run [OF example_mkdir_typescript, of quiet_programs]
    by (simp add: example_glob_typescript)
  note inst1 = command_lines_from_enumeration
    [where ps = failing_programs and ps' = quiet_programs and s = example_fs
       and s' = "example_fs @ example_py_dirs" and w = w and w' = w' and v = v and v' = v'
       and f = "[]"]
  note inst2 = command_lines_from_enumeration
    [where ps = failing_programs and ps' = quiet_programs and s = example_fs
       and s' = example_fs and v = v and v' = v' and w = w and w' = w' and f = "[]"]
  from inst1 have p3: "compile_python failing_programs example_fs = Inr w \<longrightarrow>
      invocations (trace w)
        = map python_protoc_args (hd (enumerations (trace w)))
          @ [protol_args (last (enumerations (trace w)))]"
    and p5: "compile_python failing_programs example_fs = Inr w
      \<and> compile_python quiet_programs (example_fs @ example_py_dirs) = Inr w'
      \<and> enumerations (trace w) = enumerations (trace w') \<longrightarrow>
      invocations (trace w) = invocations (trace w')"
    by blast+
  from inst2 have t4: "compile_typescript failing_programs example_fs = Inr v \<longrightarrow>
      invocations (trace v) = map typescript_protoc_args (hd (enumerations (trace v)))"
    and t6: "compile_typescript failing_programs example_fs = Inr v
      \<and> compile_typescript quiet_programs example_fs = Inr v'
      \<and> enumerations (trace v) = enumerations (trace v') \<longrightarrow>
      invocations (trace v) = invocations (trace v')"
    by blast+
  from p5 w w' have py: "invocations (trace w) = invocations (trace w')" by simp
  from p3 w have py_len: "length (invocations (trace w)) = 3" by simp
  from t6 v v' have ts: "invocations (trace v) = invocations (trace v')" by simp
  from t4 v have ts_len: "length (invocations (trace v)) = 2" by simp
  from w w' v v' py ts py_len ts_len show ?thesis by auto
qed

lemma compile_python_raises:
  "pathlib_mkdir COMPILED_PY_DIR True True s = Inl e \<Longrightarrow> compile_python ps s = Inl e"
  by (simp add: compile_python_def)

lemma compile_typescript_raises:
  "pathlib_mkdir COMPILED_TS_DIR True True s = Inl e \<Longrightarrow> compile_typescript ps s = Inl e"
  by (simp add: compile_typescript_def)

lemma same_effects_step: "same_effects ps ps' \<Longrightarrow> snd (snd (ps argv s)) = snd (snd (ps' argv s))"
  by (simp add: same_effects_def)

text \<open>
  C6, as the code has it. Both pipelines pass \<open>check=False\<close> to \<open>subprocess.run\<close>:
  neither leaves the keyword out. The call captures no output; what it returns carries the
  arguments and the exit status only, and both scripts discard it. So neither the exit
  statuses nor the text that the programs print have any influence on a run: two families of
  programs that change the filesystem in the same way give the same run, up to the exit
  statuses recorded in the trace.
\<close>

theorem exit_status_ignored:
  fixes ps ps' :: programs
  shows
    "python_check = Some False \<and> typescript_check = Some False
     \<and> subprocess_run ps argv python_check w0
         = Inr (\<lparr>args = argv, returncode = fst (ps argv (fs w0))\<rparr>,
                \<lparr>fs = snd (snd (ps argv (fs w0))),
                 trace = trace w0 @ [Spawn argv (fs w0) (fst (ps argv (fs w0)))]\<rparr>)
     \<and> subprocess_run ps argv typescript_check w0
         = Inr (\<lparr>args = argv, returncode = fst (ps argv (fs w0))\<rparr>,
                \<lparr>fs = snd (snd (ps argv (fs w0))),
                 trace = trace w0 @ [Spawn argv (fs w0) (fst (ps argv (fs w0)))]\<rparr>)
     \<and> (same_effects ps ps' \<longrightarrow>
          map_sum id (\<lambda>w. (fs w, map forget_status (trace w))) (compile_python ps s)
          = map_sum id (\<lambda>w. (fs w, map forget_status (trace w))) (compile_python ps' s))
     \<and> (same_effects ps ps' \<longrightarrow>
          map_sum id (\<lambda>w. (fs w, map forget_status (trace w))) (compile_typescript ps s)
          = map_sum id (\<lambda>w. (fs w, map forget_status (trace w))) (compile_typescript ps' s))"
proof (intro conjI impI)
  show "python_check = Some False" by (simp add: python_check_def)
  show "typescript_check = Some False" by (simp add: typescript_check_def)
  show "subprocess_run ps argv python_check w0
         = Inr (\<lparr>args = argv, returncode = fst (ps argv (fs w0))\<rparr>,
                \<lparr>fs = snd (snd (ps argv (fs w0))),
                 trace = trace w0 @ [Spawn argv (fs w0) (fst (ps argv (fs w0)))]\<rparr>)"
    by (simp add: python_check_def subprocess_run_unchecked)
  show "subprocess_run ps argv typescript_check w0
         = Inr (\<lparr>args = argv, returncode = fst (ps argv (fs w0))\<rparr>,
                \<lparr>fs = snd (snd (ps argv (fs w0))),
                 trace = trace w0 @ [Spawn argv (fs w0) (fst (ps argv (fs w0)))]\<rparr>)"
    by (simp add: typescript_check_def subprocess_run_unchecked)
next
  assume same: "same_effects ps ps'"
  show "map_sum id (\<lambda>w. (fs w, map forget_status (trace w))) (compile_python ps s)
          = map_sum id (\<lambda>w. (fs w, map forget_status (trace w))) (compile_python ps' s)"
  proof (cases "pathlib_mkdir COMPILED_PY_DIR True True s")
    case (Inl e)
    then show ?thesis by (simp add: compile_python_raises)
  next
    case (Inr s0)
    let ?A = "map python_protoc_args (glob PROTO_DIR ''.proto'' s0)"
    from forget_loop_events [OF same, of ?A s0]
    have l: "map forget_status (loop_events ps ?A s0) = map forget_status (loop_events ps' ?A s0)"
      "loop_fs ps ?A s0 = loop_fs ps' ?A s0" by simp_all
    show ?thesis
      by (simp add: compile_python_run [OF Inr] l same_effects_step [OF same])
  qed
next
  assume same: "same_effects ps ps'"
  show "map_sum id (\<lambda>w. (fs w, map forget_status (trace w))) (compile_typescript ps s)
          = map_sum id (\<lambda>w. (fs w, map forget_status (trace w))) (compile_typescript ps' s)"
  proof (cases "pathlib_mkdir COMPILED_TS_DIR True True s")
    case (Inl e)
    then show ?thesis by (simp add: compile_typescript_raises)
  next
    case (Inr s0)
    let ?A = "map typescript_protoc_args (glob PROTO_DIR ''.proto'' s0)"
    from forget_loop_events [OF same, of ?A s0]
    have l: "map forget_status (loop_events ps ?A s0) = map forget_status (loop_events ps' ?A s0)"
      "loop_fs ps ?A s0 = loop_fs ps' ?A s0" by simp_all
    show ?thesis
      by (simp add: compile_typescript_run [OF Inr] l)
  qed
qed

lemma same_effects_example: "same_effects failing_programs quiet_programs"
  by (simp add: same_effects_def)

theorem exit_status_ignored_witness:
  "same_effects failing_programs quiet_programs
   \<and> fst (failing_programs [] []) = 1 \<and> fst (quiet_programs [] []) = 0
   \<and> map_sum id (\<lambda>w. (fs w, map forget_status (trace w)))
        (compile_python failing_programs example_fs)
      = map_sum id (\<lambda>w. (fs w, map forget_status (trace w)))
        (compile_python quiet_programs example_fs)
   \<and> map_sum id (\<lambda>w. (fs w, map forget_status (trace w)))
        (compile_typescript failing_programs example_fs)
      = map_sum id (\<lambda>w. (fs w, map forget_status (trace w)))
        (compile_typescript quiet_programs example_fs)"
  using exit_status_ignored [where ps = failing_programs and ps' = quiet_programs and s = example_fs]
    same_effects_example
  by (simp add: failing_programs_def quiet_programs_def)

text \<open>
  C6, as the specification words it: the exit status would be ignored explicitly in one
  pipeline and implicitly in the other, that is, exactly one of the two scripts would leave
  the keyword \<open>check\<close> out. Both scripts give it.
\<close>

theorem exit_status_asymmetry_counterexample:
  "\<not> (python_check \<noteq> None \<and> typescript_check = None
       \<or> python_check = None \<and> typescript_check \<noteq> None)"
  by (simp add: python_check_def typescript_check_def)

end
